theory Spec2Isabelle
  imports Complex_Main "HOL-Library.Sublist"
begin

text \<open>
  A model of the agent runner of LocalDesk and of its tool executor. Three source files
  are embedded: the executor (\<^verbatim>\<open>src/electron/libs/tools-executor.ts\<close>), the web-search
  tool (\<^verbatim>\<open>part_000\<close>) and the file \<^verbatim>\<open>part_002\<close>, called the runner file below, which
  holds the tool schema (lines 1-22), the runner (lines 25-492) and the prompt loader
  (lines 494-593). Line numbers are those of these files.
\<close>

section \<open>JavaScript values the runner and the executor handle\<close>

text \<open>
  Strings are \<^typ>\<open>string\<close> (lists of characters). An optional property of a JavaScript
  object is an \<^typ>\<open>'a option\<close>: \<open>None\<close> stands for \<^verbatim>\<open>undefined\<close> (or a missing
  property). The source tests strings for truthiness (\<^verbatim>\<open>x || d\<close>, \<^verbatim>\<open>if (x)\<close>): a string is
  truthy when it is present and not empty.
\<close>

definition truthy :: "string option \<Rightarrow> bool" where
  "truthy v = (case v of None \<Rightarrow> False | Some s \<Rightarrow> s \<noteq> [])"

definition or_else :: "string option \<Rightarrow> string \<Rightarrow> string" where
  \<comment> \<open>\<^verbatim>\<open>v || d\<close> for a string-valued property\<close>
  "or_else v d = (case v of None \<Rightarrow> d | Some s \<Rightarrow> if s = [] then d else s)"

definition startsWith :: "string \<Rightarrow> string \<Rightarrow> bool" where
  "startsWith s p = (take (length p) s = p)"

definition endsWith :: "string \<Rightarrow> string \<Rightarrow> bool" where
  "endsWith s p = (length p \<le> length s \<and> drop (length s - length p) s = p)"

text \<open>
  A thrown value. \<^verbatim>\<open>JsError name message\<close> is an instance of \<^verbatim>\<open>Error\<close>;
  \<^verbatim>\<open>JsValue s\<close> is a thrown primitive whose string form is \<open>s\<close>; \<^verbatim>\<open>null\<close> and
  \<^verbatim>\<open>undefined\<close> can be thrown too. A thrown object that is not an Error, and whose
  conversion to a string could itself throw, has no counterpart here.
\<close>

datatype thrown = JsError string string | JsValue string | JsNull | JsUndefined

fun String_of :: "thrown \<Rightarrow> string" where
  \<comment> \<open>\<^verbatim>\<open>String(error)\<close>; for an Error this is \<^verbatim>\<open>Error.prototype.toString\<close>\<close>
  "String_of (JsError n m) = (if n = [] then m else if m = [] then n else n @ '': '' @ m)"
| "String_of (JsValue s) = s"
| "String_of JsNull = ''null''"
| "String_of JsUndefined = ''undefined''"

fun caught_message :: "thrown \<Rightarrow> string" where
  \<comment> \<open>\<^verbatim>\<open>error instanceof Error ? error.message : String(error)\<close>\<close>
  "caught_message (JsError n m) = m"
| "caught_message e = String_of e"

fun message_of :: "thrown \<Rightarrow> thrown + string" where
  \<comment> \<open>\<^verbatim>\<open>`${error.message}`\<close> for \<^verbatim>\<open>error: any\<close>: reading a property of
      \<^verbatim>\<open>null\<close> or \<^verbatim>\<open>undefined\<close> throws a TypeError\<close>
  "message_of (JsError n m) = Inr m"
| "message_of (JsValue s) = Inr ''undefined''"
| "message_of JsNull =
     Inl (JsError ''TypeError'' ''Cannot read properties of null (reading 'message')'')"
| "message_of JsUndefined =
     Inl (JsError ''TypeError'' ''Cannot read properties of undefined (reading 'message')'')"

text \<open>The result of \<^verbatim>\<open>JSON.parse\<close>: a JSON value.\<close>

datatype json =
    JNull | JBool bool | JNum rat | JStr string | JArr "json list" | JObj "(string \<times> json) list"

section \<open>Settings and the model client (runner, lines 116-137)\<close>

record ApiSettings =
  apiKey :: "string option"
  baseUrl :: "string option"
  model :: "string option"
  temperature :: "rat option"
  tavilyApiKey :: "string option"
  enableMemory :: "bool option"

record OpenAI_options =
  client_apiKey :: string
  client_baseURL :: string
  dangerouslyAllowBrowser :: bool

definition strip_trailing_slash :: "string \<Rightarrow> string" where
  \<comment> \<open>\<^verbatim>\<open>baseURL.replace(/\/$/, '')\<close>: the pattern matches one slash at the end of the input\<close>
  "strip_trailing_slash s = (if s \<noteq> [] \<and> last s = CHR ''/'' then butlast s else s)"

definition ensure_v1 :: "string \<Rightarrow> string" where
  "ensure_v1 b = (if \<not> endsWith b ''/v1'' then strip_trailing_slash b @ ''/v1'' else b)"

definition config_error :: thrown where
  "config_error =
     JsError ''Error'' ''API settings not configured. Please set Base URL and Model in Settings.''"

definition runner_client :: "ApiSettings option \<Rightarrow> thrown + OpenAI_options" where
  "runner_client guiSettings =
     (case guiSettings of
        None \<Rightarrow> Inl config_error
      | Some gs \<Rightarrow>
          if \<not> truthy (baseUrl gs) \<or> \<not> truthy (model gs) then Inl config_error
          else Inr \<lparr> client_apiKey = or_else (apiKey gs) ''dummy-key'',
                     client_baseURL = ensure_v1 (or_else (baseUrl gs) []),
                     dangerouslyAllowBrowser = False \<rparr>)"

section \<open>Tool schema (tools-definitions, lines 5-19 of the runner file)\<close>

text \<open>
  A tool definition is \<^verbatim>\<open>{type: "function", function: {name, description, parameters}}\<close>.
  Only the name is read by the code modelled here.
\<close>

record ToolDefinition =
  fn_name :: string

text \<open>
  Modelled from the spec: the table \<^verbatim>\<open>ALL_TOOL_DEFINITIONS\<close> of \<^verbatim>\<open>./tools/index.js\<close>
  is not among the sources. Section 6 of the specification lists its tools: Bash, Read,
  Write, Edit, Glob, Grep, WebSearch, ExtractPageContent and Memory; these are also the
  names the executor dispatches on.
\<close>

definition ALL_TOOL_DEFINITIONS :: "ToolDefinition list" where
  "ALL_TOOL_DEFINITIONS =
     map (\<lambda>n. \<lparr> fn_name = n \<rparr>)
       [''Bash'', ''Read'', ''Write'', ''Edit'', ''Glob'', ''Grep'', ''WebSearch'',
        ''ExtractPageContent'', ''Memory'']"

definition getTools :: "ApiSettings option \<Rightarrow> ToolDefinition list" where
  \<comment> \<open>\<^verbatim>\<open>!settings?.enableMemory\<close>: no settings, no flag or a false flag\<close>
  "getTools settings =
     (if \<not> (case settings of None \<Rightarrow> False
              | Some gs \<Rightarrow> (case enableMemory gs of None \<Rightarrow> False | Some b \<Rightarrow> b))
      then filter (\<lambda>tool. fn_name tool \<noteq> ''Memory'') ALL_TOOL_DEFINITIONS
      else ALL_TOOL_DEFINITIONS)"

definition TOOLS :: "ToolDefinition list" where
  \<comment> \<open>\<^verbatim>\<open>export const TOOLS = ALL_TOOL_DEFINITIONS\<close>\<close>
  "TOOLS = ALL_TOOL_DEFINITIONS"

section \<open>Node's path functions (imported by the executor, line 5)\<close>

text \<open>
  \<^verbatim>\<open>resolve\<close>, \<^verbatim>\<open>relative\<close> and \<^verbatim>\<open>isAbsolute\<close> belong to Node, not to the repository.
  They are modelled in their POSIX form, on path segments: \<^verbatim>\<open>resolve\<close> joins its
  arguments from the right until one is absolute (falling back to the process's working
  directory \<open>pcwd\<close>), then drops empty and \<^verbatim>\<open>.\<close> segments and lets \<^verbatim>\<open>..\<close> remove the
  segment before it; \<^verbatim>\<open>relative\<close> resolves both paths, removes their common leading
  segments and answers one \<^verbatim>\<open>..\<close> for each segment left of \<open>from\<close>, followed by the
  segments left of \<open>to\<close>.
\<close>

fun split_sep :: "string \<Rightarrow> string list" where
  "split_sep [] = [[]]"
| "split_sep (c # cs) =
     (if c = CHR ''/'' then [] # split_sep cs
      else (case split_sep cs of [] \<Rightarrow> [[c]] | seg # segs \<Rightarrow> (c # seg) # segs))"

fun join_sep :: "string list \<Rightarrow> string" where
  "join_sep [] = []"
| "join_sep [seg] = seg"
| "join_sep (seg # segs) = seg @ ''/'' @ join_sep segs"

definition norm_step :: "bool \<Rightarrow> string list \<Rightarrow> string \<Rightarrow> string list" where
  "norm_step allowAboveRoot res seg =
     (if seg = [] \<or> seg = ''.'' then res
      else if seg = ''..'' then
        (if res \<noteq> [] \<and> last res \<noteq> ''..'' then butlast res
         else if allowAboveRoot then res @ [''..'']
         else res)
      else res @ [seg])"

definition normalizeString :: "string \<Rightarrow> bool \<Rightarrow> string list" where
  "normalizeString path allowAboveRoot = foldl (norm_step allowAboveRoot) [] (split_sep path)"

definition isAbsolute :: "string \<Rightarrow> bool" where
  "isAbsolute path = (path \<noteq> [] \<and> hd path = CHR ''/'')"

fun resolve_acc :: "string list \<Rightarrow> string \<Rightarrow> string \<times> bool" where
  \<comment> \<open>the arguments from the right, the process's directory last; empty ones are skipped\<close>
  "resolve_acc [] resolvedPath = (resolvedPath, False)"
| "resolve_acc (path # paths) resolvedPath =
     (if path = [] then resolve_acc paths resolvedPath
      else if hd path = CHR ''/'' then (path @ ''/'' @ resolvedPath, True)
      else resolve_acc paths (path @ ''/'' @ resolvedPath))"

definition resolve :: "string \<Rightarrow> string list \<Rightarrow> string" where
  "resolve pcwd paths =
     (case resolve_acc (rev paths @ [pcwd]) [] of
        (resolvedPath, resolvedAbsolute) \<Rightarrow>
          let r = join_sep (normalizeString resolvedPath (\<not> resolvedAbsolute))
          in if resolvedAbsolute then CHR ''/'' # r else if r \<noteq> [] then r else ''.'')"

definition path_segments :: "string \<Rightarrow> string list" where
  "path_segments path = filter (\<lambda>seg. seg \<noteq> []) (split_sep path)"

fun strip_common :: "string list \<Rightarrow> string list \<Rightarrow> string list \<times> string list" where
  "strip_common (a # as) (b # bs) = (if a = b then strip_common as bs else (a # as, b # bs))"
| "strip_common as bs = (as, bs)"

definition relative :: "string \<Rightarrow> string \<Rightarrow> string \<Rightarrow> string" where
  "relative pcwd from to =
     (if from = to then []
      else let from' = resolve pcwd [from]; to' = resolve pcwd [to]
           in if from' = to' then []
              else (case strip_common (path_segments from') (path_segments to') of
                      (ups, downs) \<Rightarrow> join_sep (map (\<lambda>_. ''..'') ups @ downs)))"

section \<open>Tool executor (tools-executor.ts)\<close>

text \<open>\<^verbatim>\<open>ToolResult\<close>: \<^verbatim>\<open>{success, output?, error?}\<close> (\<open>output\<close> is a reserved word here).\<close>

record ToolResult =
  success :: bool
  tr_output :: "string option"
  tr_error :: "string option"

record ToolExecutor =
  cwd :: string
  apiSettings :: "ApiSettings option"
  webSearchTool :: "string option"
  extractPageTool :: "string option"

definition new_ToolExecutor :: "string \<Rightarrow> string \<Rightarrow> ApiSettings option \<Rightarrow> ToolExecutor" where
  \<comment> \<open>the constructor, lines 28-37; the web tools hold the Tavily key they are built with\<close>
  "new_ToolExecutor pcwd dir settings =
     (let key = (case settings of None \<Rightarrow> None
                 | Some gs \<Rightarrow> if truthy (tavilyApiKey gs) then tavilyApiKey gs else None)
      in \<lparr> cwd = resolve pcwd [dir], apiSettings = settings,
           webSearchTool = key, extractPageTool = key \<rparr>)"

definition isPathSafe :: "string \<Rightarrow> ToolExecutor \<Rightarrow> string \<Rightarrow> bool" where
  \<comment> \<open>lines 40-52; the warning written to the console is not modelled\<close>
  "isPathSafe pcwd ex filePath =
     (let absolutePath = resolve pcwd [cwd ex, filePath];
          relativePath = relative pcwd (cwd ex) absolutePath
      in \<not> startsWith relativePath ''..'' \<and> \<not> isAbsolute relativePath)"

record ToolExecutionContext =
  ctx_cwd :: string
  ctx_isPathSafe :: "string \<Rightarrow> bool"

definition getContext :: "string \<Rightarrow> ToolExecutor \<Rightarrow> ToolExecutionContext" where
  "getContext pcwd ex = \<lparr> ctx_cwd = cwd ex, ctx_isPathSafe = isPathSafe pcwd ex \<rparr>"

text \<open>
  The tool bodies are imported from files that are not among the sources, and the two
  web tools reach the network. They are parameters of the model: each either returns a
  result or throws.
\<close>

type_synonym tool_body = "json \<Rightarrow> ToolExecutionContext \<Rightarrow> thrown + ToolResult"

record tool_impls =
  executeBashTool :: tool_body
  executeReadTool :: tool_body
  executeWriteTool :: tool_body
  executeEditTool :: tool_body
  executeGlobTool :: tool_body
  executeGrepTool :: tool_body
  executeMemoryTool :: tool_body
  tavily_search :: "string \<Rightarrow> json \<Rightarrow> thrown + string"
  tavily_extract :: "string \<Rightarrow> json \<Rightarrow> thrown + string"

definition fail_with :: "string \<Rightarrow> ToolResult" where
  "fail_with msg = \<lparr> success = False, tr_output = None, tr_error = Some msg \<rparr>"

definition WebSearchTool_search :: "tool_impls \<Rightarrow> string \<Rightarrow> json \<Rightarrow> thrown + string" where
  \<comment> \<open>\<^verbatim>\<open>search\<close> (web-search tool, lines 66-111) followed by \<^verbatim>\<open>formatResults\<close>: the
      key check comes first; the request and the formatting are \<^verbatim>\<open>tavily_search\<close>\<close>
  "WebSearchTool_search impls key args =
     (if key = [] \<or> key = ''dummy-key''
      then Inl (JsError ''Error'' ''Tavily API key not configured. Please set it in Settings.'')
      else tavily_search impls key args)"

definition web_search_attempt :: "tool_impls \<Rightarrow> string \<Rightarrow> json \<Rightarrow> thrown + string" where
  \<comment> \<open>the body of the \<^verbatim>\<open>try\<close>, lines 119-125: the parameters are read from \<^verbatim>\<open>args\<close>
      first, which throws when \<^verbatim>\<open>args\<close> is \<^verbatim>\<open>null\<close>\<close>
  "web_search_attempt impls key args =
     (case args of
        JNull \<Rightarrow> Inl (JsError ''TypeError'' ''Cannot read properties of null (reading 'query')'')
      | _ \<Rightarrow> WebSearchTool_search impls key args)"

definition executeWebSearch :: "tool_impls \<Rightarrow> ToolExecutor \<Rightarrow> json \<Rightarrow> thrown + ToolResult" where
  "executeWebSearch impls ex args =
     (case webSearchTool ex of
        None \<Rightarrow> Inr (fail_with
          ''Web search is not available. Please configure Tavily API key in Settings.'')
      | Some key \<Rightarrow>
          (case web_search_attempt impls key args of
             Inr formatted \<Rightarrow> Inr \<lparr> success = True, tr_output = Some formatted, tr_error = None \<rparr>
           | Inl e \<Rightarrow>
               (case message_of e of
                  Inl e' \<Rightarrow> Inl e'
                | Inr m \<Rightarrow> Inr (fail_with (''Web search failed: '' @ m)))))"

definition page_extract_attempt :: "tool_impls \<Rightarrow> string \<Rightarrow> json \<Rightarrow> thrown + string" where
  \<comment> \<open>the body of the \<^verbatim>\<open>try\<close>, lines 148-153\<close>
  "page_extract_attempt impls key args =
     (case args of
        JNull \<Rightarrow> Inl (JsError ''TypeError'' ''Cannot read properties of null (reading 'urls')'')
      | _ \<Rightarrow> tavily_extract impls key args)"

definition executeExtractPage :: "tool_impls \<Rightarrow> ToolExecutor \<Rightarrow> json \<Rightarrow> thrown + ToolResult" where
  "executeExtractPage impls ex args =
     (case extractPageTool ex of
        None \<Rightarrow> Inr (fail_with
          ''Page extraction is not available. Please configure Tavily API key in Settings.'')
      | Some key \<Rightarrow>
          (case page_extract_attempt impls key args of
             Inr formatted \<Rightarrow> Inr \<lparr> success = True, tr_output = Some formatted, tr_error = None \<rparr>
           | Inl e \<Rightarrow>
               (case message_of e of
                  Inl e' \<Rightarrow> Inl e'
                | Inr m \<Rightarrow> Inr (fail_with (''Page extraction failed: '' @ m)))))"


definition dispatch ::
  "string \<Rightarrow> tool_impls \<Rightarrow> ToolExecutor \<Rightarrow> string \<Rightarrow> json \<Rightarrow> thrown + ToolResult" where
  \<comment> \<open>the body of the \<^verbatim>\<open>try\<close>, lines 67-100\<close>
  "dispatch pcwd impls ex toolName args =
     (let context = getContext pcwd ex
      in if toolName = ''Bash'' then executeBashTool impls args context
         else if toolName = ''Read'' then executeReadTool impls args context
         else if toolName = ''Write'' then executeWriteTool impls args context
         else if toolName = ''Edit'' then executeEditTool impls args context
         else if toolName = ''Glob'' then executeGlobTool impls args context
         else if toolName = ''Grep'' then executeGrepTool impls args context
         else if toolName = ''WebSearch'' then executeWebSearch impls ex args
         else if toolName = ''ExtractPageContent'' then executeExtractPage impls ex args
         else if toolName = ''Memory'' then executeMemoryTool impls args context
         else Inr (fail_with (''Unknown tool: '' @ toolName)))"

definition executeTool ::
  "string \<Rightarrow> tool_impls \<Rightarrow> ToolExecutor \<Rightarrow> string \<Rightarrow> json \<Rightarrow> thrown + ToolResult" where
  \<comment> \<open>lines 61-108: \<open>Inl\<close> would be a rejected promise\<close>
  "executeTool pcwd impls ex toolName args =
     (case dispatch pcwd impls ex toolName args of
        Inr r \<Rightarrow> Inr r
      | Inl e \<Rightarrow> Inr (fail_with (caught_message e)))"

section \<open>Runner: data (runner file, lines 41-61, and the events it emits)\<close>

record Session =
  session_id :: string
  session_cwd :: "string option"
  session_title :: string

record RunnerOptions =
  prompt :: string
  session :: Session
  has_onSessionUpdate :: bool

datatype role = System | User | Assistant | Tool

text \<open>
  An assembled tool call \<^verbatim>\<open>{id, type: 'function', function: {name, arguments}}\<close>. The
  array \<^verbatim>\<open>toolCalls\<close> is written by index, so it can have holes: it is a list of
  options, \<open>None\<close> for a hole.
\<close>

record tool_call =
  tc_id :: string
  tc_name :: string
  tc_arguments :: string

record ChatMessage =
  role :: role
  content :: string
  tool_calls :: "tool_call option list option"
  tool_call_id :: "string option"
  msg_name :: "string option"

text \<open>The persisted log: the kinds the history loop tells apart, each with the field it reads.\<close>

datatype PersistedEvent =
    User_prompt "string option"
  | Text_event "string option"
  | Tool_result_event "string option"
  | Other_event

text \<open>One increment of the model's stream: \<^verbatim>\<open>chunk.choices[0]?.delta\<close>.\<close>

record function_delta =
  fd_name :: "string option"
  fd_arguments :: "string option"

record tool_call_delta =
  tcd_index :: "nat option"
  tcd_id :: "string option"
  tcd_function :: "function_delta option"

record delta =
  delta_content :: "string option"
  delta_tool_calls :: "tool_call_delta list option"

type_synonym chunk = "delta option"

record ChatRequest =
  req_model :: string
  req_messages :: "ChatMessage list"
  req_tools :: "ToolDefinition list"
  req_temperature :: rat
  req_stream :: bool

datatype stream_event = content_block_start | content_block_delta string | content_block_stop

datatype sdk_message =
    Msg_system_init string string "string list" string string
      \<comment> \<open>cwd, session id, tool names, model, permission mode\<close>
  | Msg_stream_event stream_event
  | Msg_assistant_text string string
      \<comment> \<open>message id, text\<close>
  | Msg_assistant_tool_use string string string json
      \<comment> \<open>message id, call id, tool name, input\<close>
  | Msg_result bool nat string string
      \<comment> \<open>is_error, num_turns, result, session id (subtype success)\<close>
  | Msg_user_tool_result string "string option" bool
      \<comment> \<open>tool_use_id, content, is_error\<close>

datatype status = Completed | Errored

datatype ServerEvent =
    stream_message string sdk_message
  | permission_request string string string json "json option"
      \<comment> \<open>session id, toolUseId, toolName, input, explanation\<close>
  | session_status string status string "string option"
      \<comment> \<open>session id, status, title, error\<close>

datatype db_record =
    Db_text string string
  | Db_tool_use string string json string
  | Db_tool_result string "string option" bool string

text \<open>
  Everything the runner reads from outside is a field of the environment: the settings
  file, the session store, the prompt templates, the model (the \<open>n\<close>-th request of a run
  answers a list of chunks, and possibly fails after them), \<^verbatim>\<open>JSON.parse\<close>, the clock
  (the value of the \<open>k\<close>-th read of \<^verbatim>\<open>Date.now()\<close>), the abort flag (set by the handle's
  \<^verbatim>\<open>abort()\<close>; \<open>Some k\<close>: the flag reads true from the \<open>k\<close>-th read on) and the tool
  bodies (those in force at the \<open>j\<close>-th tool execution).
\<close>

record environment =
  loadApiSettings :: "ApiSettings option"
  process_cwd :: string
  sessionStore :: "(string \<Rightarrow> PersistedEvent list option) option"
  getSystemPrompt :: "string \<Rightarrow> thrown + string"
  getInitialPrompt :: "string \<Rightarrow> thrown + string"
  chat_create :: "OpenAI_options \<Rightarrow> nat \<Rightarrow> ChatRequest \<Rightarrow> chunk list \<times> thrown option"
  JSON_parse :: "string \<Rightarrow> thrown + json"
  Date_now :: "nat \<Rightarrow> nat"
  aborted_from :: "nat option"
  tool_bodies :: "nat \<Rightarrow> tool_impls"

text \<open>
  What the runner does to the outside, in order: the events given to \<^verbatim>\<open>onEvent\<close>, the
  records given to the store, the requests sent to the model, the session updates; and
  its own \<^verbatim>\<open>messages\<close> array and the counts of reads of the flag and the clock.
  The callbacks \<^verbatim>\<open>onEvent\<close> and \<^verbatim>\<open>onSessionUpdate\<close> and the store's
  \<^verbatim>\<open>recordMessage\<close> are taken to return. Console output and the request log
  (lines 63-84 and 214-220, which catches its own failures) leave no trace in the state.
\<close>

record runner_state =
  events :: "ServerEvent list"
  db :: "db_record list"
  messages :: "ChatMessage list"
  requests :: "ChatRequest list"
  session_updates :: "string list"
  polls :: nat
  clock_reads :: nat
  tool_runs :: nat

definition initial_state :: runner_state where
  "initial_state = \<lparr> events = [], db = [], messages = [], requests = [], session_updates = [],
     polls = 0, clock_reads = 0, tool_runs = 0 \<rparr>"

definition onEvent :: "ServerEvent \<Rightarrow> runner_state \<Rightarrow> runner_state" where
  "onEvent ev s = s\<lparr> events := events s @ [ev] \<rparr>"

definition sendMessage :: "Session \<Rightarrow> sdk_message \<Rightarrow> runner_state \<Rightarrow> runner_state" where
  "sendMessage sess m s = onEvent (stream_message (session_id sess) m) s"

definition saveToDb :: "environment \<Rightarrow> Session \<Rightarrow> db_record \<Rightarrow> runner_state \<Rightarrow> runner_state" where
  \<comment> \<open>lines 98-103: a no-op without a store or a session id\<close>
  "saveToDb env sess r s =
     (if sessionStore env \<noteq> None \<and> session_id sess \<noteq> [] then s\<lparr> db := db s @ [r] \<rparr> else s)"

definition read_aborted :: "environment \<Rightarrow> runner_state \<Rightarrow> bool \<times> runner_state" where
  "read_aborted env s =
     ((case aborted_from env of None \<Rightarrow> False | Some k \<Rightarrow> k \<le> polls s),
      s\<lparr> polls := Suc (polls s) \<rparr>)"

definition now :: "environment \<Rightarrow> runner_state \<Rightarrow> nat \<times> runner_state" where
  "now env s = (Date_now env (clock_reads s), s\<lparr> clock_reads := Suc (clock_reads s) \<rparr>)"

fun show_nat :: "nat \<Rightarrow> string" where
  \<comment> \<open>a number inside a template literal: its decimal digits\<close>
  "show_nat n =
     (if n < 10 then [char_of (48 + n)] else show_nat (n div 10) @ [char_of (48 + n mod 10)])"

declare show_nat.simps [simp del]

section \<open>Conversation history (runner file, lines 142-212)\<close>

definition js_space :: "char \<Rightarrow> bool" where
  \<comment> \<open>the white space and line terminators \<^verbatim>\<open>trim\<close> removes, among the characters below 256\<close>
  "js_space c = (c \<in> {CHR 0x09, CHR 0x0A, CHR 0x0B, CHR 0x0C, CHR 0x0D, CHR 0x20, CHR 0xA0})"

definition trim :: "string \<Rightarrow> string" where
  "trim s = rev (dropWhile js_space (rev (dropWhile js_space s)))"

definition chat :: "role \<Rightarrow> string \<Rightarrow> ChatMessage" where
  \<comment> \<open>\<^verbatim>\<open>{role, content}\<close>\<close>
  "chat r c = \<lparr> role = r, content = c, tool_calls = None, tool_call_id = None, msg_name = None \<rparr>"

fun convert_history ::
  "PersistedEvent list \<Rightarrow> ChatMessage list \<Rightarrow> string \<Rightarrow> string
     \<Rightarrow> ChatMessage list \<times> string \<times> string" where
  \<comment> \<open>the loop of lines 163-192 over \<^verbatim>\<open>messages\<close>, \<^verbatim>\<open>currentAssistantMessage\<close> and
      \<^verbatim>\<open>lastUserPrompt\<close>\<close>
  "convert_history [] msgs currentAssistantMessage lastUserPrompt =
     (msgs, currentAssistantMessage, lastUserPrompt)"
| "convert_history (User_prompt p # rest) msgs currentAssistantMessage lastUserPrompt =
     (let promptText = or_else p []
      in if trim currentAssistantMessage \<noteq> []
         then convert_history rest
                (msgs @ [chat Assistant (trim currentAssistantMessage)] @ [chat User promptText])
                [] promptText
         else convert_history rest (msgs @ [chat User promptText])
                currentAssistantMessage promptText)"
| "convert_history (Text_event t # rest) msgs currentAssistantMessage lastUserPrompt =
     convert_history rest msgs (currentAssistantMessage @ or_else t []) lastUserPrompt"
| "convert_history (Tool_result_event out # rest) msgs currentAssistantMessage lastUserPrompt =
     convert_history rest msgs
       (currentAssistantMessage @ [CHR 0x0A] @ ''[Tool Output: '' @ or_else out [] @ '']''
          @ [CHR 0x0A])
       lastUserPrompt"
| "convert_history (Other_event # rest) msgs currentAssistantMessage lastUserPrompt =
     convert_history rest msgs currentAssistantMessage lastUserPrompt"

definition stored_log :: "environment \<Rightarrow> Session \<Rightarrow> PersistedEvent list" where
  \<comment> \<open>\<^verbatim>\<open>history.messages\<close> when there is a store, a session id and a history; nothing to
      iterate otherwise\<close>
  "stored_log env sess =
     (case sessionStore env of
        None \<Rightarrow> []
      | Some getSessionHistory \<Rightarrow>
          if session_id sess = [] then []
          else (case getSessionHistory (session_id sess) of None \<Rightarrow> [] | Some h \<Rightarrow> h))"

definition load_history ::
  "environment \<Rightarrow> Session \<Rightarrow> ChatMessage list \<Rightarrow> ChatMessage list \<times> string" where
  \<comment> \<open>lines 152-202: the messages after the log, and \<^verbatim>\<open>lastUserPrompt\<close>\<close>
  "load_history env sess msgs =
     (let h = stored_log env sess
      in if length h > 0
         then (case convert_history h msgs [] [] of
                 (msgs', currentAssistantMessage, lastUserPrompt) \<Rightarrow>
                   (if trim currentAssistantMessage \<noteq> []
                    then msgs' @ [chat Assistant (trim currentAssistantMessage)]
                    else msgs',
                    lastUserPrompt))
         else (msgs, []))"

definition buildHistory ::
  "environment \<Rightarrow> Session \<Rightarrow> string \<Rightarrow> thrown + ChatMessage list" where
  \<comment> \<open>lines 143-212; reading a prompt template can throw\<close>
  "buildHistory env sess newPrompt =
     (case getSystemPrompt env (or_else (session_cwd sess) (process_cwd env)) of
        Inl e \<Rightarrow> Inl e
      | Inr systemPrompt \<Rightarrow>
          (case load_history env sess [chat System systemPrompt] of
             (msgs, lastUserPrompt) \<Rightarrow>
               if newPrompt \<noteq> lastUserPrompt
               then (case getInitialPrompt env newPrompt of
                       Inl e \<Rightarrow> Inl e
                     | Inr formattedPrompt \<Rightarrow> Inr (msgs @ [chat User formattedPrompt]))
               else Inr msgs))"

text \<open>
  The words of the specification for the same log: the text of the last \<^verbatim>\<open>user_prompt\<close>
  event, if the log has one.
\<close>

fun last_user_prompt_text :: "PersistedEvent list \<Rightarrow> string option" where
  "last_user_prompt_text [] = None"
| "last_user_prompt_text (ev # rest) =
     (case last_user_prompt_text rest of
        Some t \<Rightarrow> Some t
      | None \<Rightarrow> (case ev of User_prompt p \<Rightarrow> Some (or_else p []) | _ \<Rightarrow> None))"

section \<open>Streaming response assembly (runner file, lines 256-332)\<close>

record iteration_vars =
  assistantMessage :: string
  toolCalls :: "tool_call option list"
  contentStarted :: bool

definition fresh_vars :: iteration_vars where
  "fresh_vars = \<lparr> assistantMessage = [], toolCalls = [], contentStarted = False \<rparr>"

definition slot :: "'a option list \<Rightarrow> nat \<Rightarrow> 'a option" where
  \<comment> \<open>\<^verbatim>\<open>toolCalls[i]\<close>: \<^verbatim>\<open>undefined\<close> at a hole and past the end\<close>
  "slot xs i = (if i < length xs then xs ! i else None)"

definition set_slot :: "'a option list \<Rightarrow> nat \<Rightarrow> 'a \<Rightarrow> 'a option list" where
  \<comment> \<open>\<^verbatim>\<open>toolCalls[i] = x\<close>: writing past the end leaves holes in between\<close>
  "set_slot xs i x =
     (if i < length xs then xs[i := Some x]
      else xs @ replicate (i - length xs) None @ [Some x])"

definition delta_name :: "tool_call_delta \<Rightarrow> string" where
  \<comment> \<open>\<^verbatim>\<open>toolCall.function?.name || ''\<close>\<close>
  "delta_name fr = or_else (case tcd_function fr of None \<Rightarrow> None | Some f \<Rightarrow> fd_name f) []"

definition delta_arguments :: "tool_call_delta \<Rightarrow> string" where
  \<comment> \<open>\<^verbatim>\<open>toolCall.function?.arguments || ''\<close>\<close>
  "delta_arguments fr =
     or_else (case tcd_function fr of None \<Rightarrow> None | Some f \<Rightarrow> fd_arguments f) []"

definition generated_id :: "nat \<Rightarrow> nat \<Rightarrow> string" where
  \<comment> \<open>\<^verbatim>\<open>`call_${Date.now()}_${toolCall.index}`\<close>\<close>
  "generated_id t i = ''call_'' @ show_nat t @ ''_'' @ show_nat i"

definition apply_fragment ::
  "environment \<Rightarrow> tool_call option list \<times> runner_state \<Rightarrow> tool_call_delta
     \<Rightarrow> tool_call option list \<times> runner_state" where
  \<comment> \<open>lines 304-319; the clock is read only when the fragment that opens a slot has no id\<close>
  "apply_fragment env acc fr =
     (case acc of (calls, s) \<Rightarrow>
        (case tcd_index fr of
           None \<Rightarrow> (calls, s)
         | Some i \<Rightarrow>
             (case slot calls i of
                None \<Rightarrow>
                  (case (if truthy (tcd_id fr) then (or_else (tcd_id fr) [], s)
                         else (case now env s of (t, s') \<Rightarrow> (generated_id t i, s'))) of
                     (new_id, s') \<Rightarrow>
                       (set_slot calls i
                          \<lparr> tc_id = new_id, tc_name = delta_name fr,
                            tc_arguments = delta_arguments fr \<rparr>,
                        s'))
              | Some cur \<Rightarrow>
                  (if delta_arguments fr \<noteq> []
                   then (calls[i := Some (cur\<lparr> tc_arguments :=
                                   tc_arguments cur @ delta_arguments fr \<rparr>)], s)
                   else (calls, s)))))"

definition on_text ::
  "Session \<Rightarrow> string option \<Rightarrow> iteration_vars \<Rightarrow> runner_state
     \<Rightarrow> iteration_vars \<times> runner_state" where
  \<comment> \<open>lines 270-299\<close>
  "on_text sess c v s =
     (if truthy c then
        (let txt = or_else c [];
             s1 = (if \<not> contentStarted v
                   then sendMessage sess (Msg_stream_event content_block_start) s else s)
         in (v\<lparr> contentStarted := True, assistantMessage := assistantMessage v @ txt \<rparr>,
             sendMessage sess (Msg_stream_event (content_block_delta txt)) s1))
      else (v, s))"

definition on_chunk ::
  "environment \<Rightarrow> Session \<Rightarrow> chunk \<Rightarrow> iteration_vars \<Rightarrow> runner_state
     \<Rightarrow> iteration_vars \<times> runner_state" where
  \<comment> \<open>lines 265-321, after the abort check\<close>
  "on_chunk env sess ch v s =
     (case ch of
        None \<Rightarrow> (v, s)
      | Some d \<Rightarrow>
          (case on_text sess (delta_content d) v s of
             (v1, s1) \<Rightarrow>
               (case delta_tool_calls d of
                  None \<Rightarrow> (v1, s1)
                | Some frs \<Rightarrow>
                    (case foldl (apply_fragment env) (toolCalls v1, s1) frs of
                       (calls, s2) \<Rightarrow> (v1\<lparr> toolCalls := calls \<rparr>, s2)))))"

fun consume ::
  "environment \<Rightarrow> Session \<Rightarrow> chunk list \<Rightarrow> thrown option \<Rightarrow> iteration_vars \<Rightarrow> runner_state
     \<Rightarrow> thrown option \<times> iteration_vars \<times> runner_state" where
  \<comment> \<open>\<^verbatim>\<open>for await (const chunk of stream)\<close>, lines 262-322: the flag is read before each
      chunk; a stream that fails does so after its last chunk\<close>
  "consume env sess [] failure v s = (failure, v, s)"
| "consume env sess (ch # rest) failure v s =
     (case read_aborted env s of
        (aborted, s1) \<Rightarrow>
          if aborted then (None, v, s1)
          else (case on_chunk env sess ch v s1 of
                  (v2, s2) \<Rightarrow> consume env sess rest failure v2 s2))"

text \<open>
  The words of the specification for the assembler: the fragments of a stream, in order
  of arrival, and what a slot holds once the fragments \<open>frs\<close> addressed to it have been
  applied to what it held \<open>before\<close>.
\<close>

definition fragments_of :: "chunk list \<Rightarrow> tool_call_delta list" where
  "fragments_of chunks =
     concat (map (\<lambda>ch. case ch of None \<Rightarrow> []
                        | Some d \<Rightarrow> (case delta_tool_calls d of None \<Rightarrow> [] | Some frs \<Rightarrow> frs))
               chunks)"

definition opened_by :: "nat \<Rightarrow> tool_call_delta \<Rightarrow> tool_call \<Rightarrow> bool" where
  \<comment> \<open>the name is the first fragment's; so is the id, or it is a generated one\<close>
  "opened_by i fr c =
     (tc_name c = delta_name fr
      \<and> (if truthy (tcd_id fr) then tcd_id fr = Some (tc_id c)
         else \<exists>t. tc_id c = generated_id t i))"

definition slot_spec ::
  "nat \<Rightarrow> tool_call option \<Rightarrow> tool_call_delta list \<Rightarrow> tool_call option \<Rightarrow> bool" where
  "slot_spec i before frs after =
     (case before of
        Some cur \<Rightarrow>
          after = Some (cur\<lparr> tc_arguments :=
                          tc_arguments cur @ concat (map delta_arguments frs) \<rparr>)
      | None \<Rightarrow>
          (case frs of
             [] \<Rightarrow> after = None
           | fr # rest \<Rightarrow>
               (\<exists>c. after = Some c \<and> opened_by i fr c
                    \<and> tc_arguments c = concat (map delta_arguments (fr # rest)))))"

section \<open>Agent loop (runner file, lines 237-483)\<close>

record run_context =
  rc_client :: OpenAI_options
  rc_settings :: ApiSettings
  rc_executor :: ToolExecutor
  rc_session :: Session

definition MAX_ITERATIONS :: nat where
  "MAX_ITERATIONS = 50"

definition arguments_or_default :: "tool_call \<Rightarrow> string" where
  \<comment> \<open>\<^verbatim>\<open>toolCall.function.arguments || '{}'\<close>\<close>
  "arguments_or_default tc = (if tc_arguments tc = [] then ''{}'' else tc_arguments tc)"

definition hole_error :: thrown where
  \<comment> \<open>reading \<^verbatim>\<open>toolCall.function\<close> at a hole of the array\<close>
  "hole_error =
     JsError ''TypeError'' ''Cannot read properties of undefined (reading 'function')''"

fun get_explanation :: "json \<Rightarrow> thrown + json option" where
  \<comment> \<open>\<^verbatim>\<open>toolArgs.explanation\<close>\<close>
  "get_explanation JNull =
     Inl (JsError ''TypeError'' ''Cannot read properties of null (reading 'explanation')'')"
| "get_explanation (JObj kvs) = Inr (map_of kvs ''explanation'')"
| "get_explanation j = Inr None"

definition request_for :: "run_context \<Rightarrow> ChatMessage list \<Rightarrow> ChatRequest" where
  \<comment> \<open>lines 248-254\<close>
  "request_for ctx msgs =
     \<lparr> req_model = or_else (model (rc_settings ctx)) [],
       req_messages = msgs,
       req_tools = TOOLS,
       req_temperature =
         (case temperature (rc_settings ctx) of
            None \<Rightarrow> 3 / 10
          | Some t \<Rightarrow> if t = 0 then 3 / 10 else t),
       req_stream = True \<rparr>"

definition finish_without_tools ::
  "environment \<Rightarrow> Session \<Rightarrow> nat \<Rightarrow> iteration_vars \<Rightarrow> runner_state \<Rightarrow> runner_state" where
  \<comment> \<open>lines 335-368\<close>
  "finish_without_tools env sess iterationCount v s =
     (case now env s of (t1, s1) \<Rightarrow>
      (case now env (sendMessage sess
                (Msg_assistant_text (''msg_'' @ show_nat t1) (assistantMessage v)) s1) of
         (t2, s2) \<Rightarrow>
           onEvent (session_status (session_id sess) Completed (session_title sess) None)
             (sendMessage sess
                (Msg_result False iterationCount (assistantMessage v) (session_id sess))
                (saveToDb env sess
                   (Db_text (assistantMessage v) (''msg_'' @ show_nat t2 @ ''_db'')) s2))))"

fun announce ::
  "environment \<Rightarrow> Session \<Rightarrow> tool_call option list \<Rightarrow> runner_state
     \<Rightarrow> thrown option \<times> runner_state" where
  \<comment> \<open>lines 389-412: a hole or an argument string that does not parse throws here\<close>
  "announce env sess [] s = (None, s)"
| "announce env sess (None # rest) s = (Some hole_error, s)"
| "announce env sess (Some tc # rest) s =
     (case JSON_parse env (arguments_or_default tc) of
        Inl e \<Rightarrow> (Some e, s)
      | Inr toolInput \<Rightarrow>
          announce env sess rest
            (saveToDb env sess
               (Db_tool_use (tc_id tc) (tc_name tc) toolInput (''tool_'' @ tc_id tc))
               (sendMessage sess
                  (Msg_assistant_tool_use (''msg_'' @ tc_id tc) (tc_id tc) (tc_name tc) toolInput)
                  s)))"

definition result_text :: "ToolResult \<Rightarrow> string" where
  \<comment> \<open>\<^verbatim>\<open>`Error: ${result.error}`\<close>\<close>
  "result_text r = ''Error: '' @ (case tr_error r of None \<Rightarrow> ''undefined'' | Some m \<Rightarrow> m)"

definition after_tool ::
  "environment \<Rightarrow> Session \<Rightarrow> tool_call \<Rightarrow> ToolResult \<Rightarrow> runner_state \<Rightarrow> runner_state" where
  \<comment> \<open>lines 442-460\<close>
  "after_tool env sess tc r s =
     (let shown = (if success r then tr_output r else Some (result_text r))
      in saveToDb env sess
           (Db_tool_result (tc_id tc) shown (\<not> success r) (''tool_result_'' @ tc_id tc))
           (sendMessage sess (Msg_user_tool_result (tc_id tc) shown (\<not> success r)) s))"

definition tool_message :: "tool_call \<Rightarrow> ToolResult \<Rightarrow> ChatMessage" where
  \<comment> \<open>lines 433-440\<close>
  "tool_message tc r =
     \<lparr> role = Tool,
       content = (if success r then or_else (tr_output r) ''Success'' else result_text r),
       tool_calls = None, tool_call_id = Some (tc_id tc), msg_name = Some (tc_name tc) \<rparr>"

fun execute_tools ::
  "environment \<Rightarrow> run_context \<Rightarrow> tool_call option list \<Rightarrow> ChatMessage list \<Rightarrow> runner_state
     \<Rightarrow> thrown option \<times> ChatMessage list \<times> runner_state" where
  \<comment> \<open>lines 417-461: the flag is read before each call\<close>
  "execute_tools env ctx [] toolResults s = (None, toolResults, s)"
| "execute_tools env ctx (c # rest) toolResults s =
     (case read_aborted env s of
        (aborted, s1) \<Rightarrow>
          if aborted then (None, toolResults, s1)
          else
            (case c of
               None \<Rightarrow> (Some hole_error, toolResults, s1)
             | Some tc \<Rightarrow>
                 (case JSON_parse env (arguments_or_default tc) of
                    Inl e \<Rightarrow> (Some e, toolResults, s1)
                  | Inr toolArgs \<Rightarrow>
                      (case get_explanation toolArgs of
                         Inl e \<Rightarrow> (Some e, toolResults, s1)
                       | Inr explanation \<Rightarrow>
                           (let s2 = onEvent (permission_request (session_id (rc_session ctx))
                                        (tc_id tc) (tc_name tc) toolArgs explanation) s1
                            in case executeTool (process_cwd env) (tool_bodies env (tool_runs s2))
                                    (rc_executor ctx) (tc_name tc) toolArgs of
                                 Inl e \<Rightarrow> (Some e, toolResults, s2\<lparr> tool_runs := Suc (tool_runs s2) \<rparr>)
                               | Inr r \<Rightarrow>
                                   execute_tools env ctx rest (toolResults @ [tool_message tc r])
                                     (after_tool env (rc_session ctx) tc r
                                        (s2\<lparr> tool_runs := Suc (tool_runs s2) \<rparr>)))))))"

datatype flow = Continue | Break | Throw thrown

definition with_tools ::
  "environment \<Rightarrow> run_context \<Rightarrow> iteration_vars \<Rightarrow> runner_state \<Rightarrow> flow \<times> runner_state" where
  \<comment> \<open>lines 373-464\<close>
  "with_tools env ctx v s =
     (let sess = rc_session ctx;
          s1 = s\<lparr> messages := messages s @
                   [\<lparr> role = Assistant, content = assistantMessage v,
                      tool_calls = Some (toolCalls v), tool_call_id = None, msg_name = None \<rparr>] \<rparr>;
          s2 = (if trim (assistantMessage v) \<noteq> []
                then (case now env s1 of (t, s') \<Rightarrow>
                        saveToDb env sess
                          (Db_text (assistantMessage v) (''msg_text_'' @ show_nat t)) s')
                else s1)
      in case announce env sess (toolCalls v) s2 of
           (Some e, s3) \<Rightarrow> (Throw e, s3)
         | (None, s3) \<Rightarrow>
             (case execute_tools env ctx (toolCalls v) [] s3 of
                (Some e, toolResults, s4) \<Rightarrow> (Throw e, s4)
              | (None, toolResults, s4) \<Rightarrow>
                  (Continue, s4\<lparr> messages := messages s4 @ toolResults \<rparr>)))"

definition iteration ::
  "environment \<Rightarrow> run_context \<Rightarrow> nat \<Rightarrow> runner_state \<Rightarrow> flow \<times> runner_state" where
  \<comment> \<open>the body of the \<^verbatim>\<open>while\<close>, lines 242-464, with \<^verbatim>\<open>iterationCount\<close> already
      incremented\<close>
  "iteration env ctx iterationCount s =
     (let req = request_for ctx (messages s);
          s0 = s\<lparr> requests := requests s @ [req] \<rparr>
      in case chat_create env (rc_client ctx) iterationCount req of
           (chunks, failure) \<Rightarrow>
             (case consume env (rc_session ctx) chunks failure fresh_vars s0 of
                (Some e, v, s1) \<Rightarrow> (Throw e, s1)
              | (None, v, s1) \<Rightarrow>
                  (let s2 = (if contentStarted v
                             then sendMessage (rc_session ctx)
                                    (Msg_stream_event content_block_stop) s1
                             else s1)
                   in if length (toolCalls v) = 0
                      then (Break, finish_without_tools env (rc_session ctx) iterationCount v s2)
                      else with_tools env ctx v s2)))"

function agent_loop ::
  "environment \<Rightarrow> run_context \<Rightarrow> nat \<Rightarrow> runner_state \<Rightarrow> thrown option \<times> nat \<times> runner_state" where
  \<comment> \<open>\<^verbatim>\<open>while (!aborted && iterationCount < MAX_ITERATIONS)\<close>, line 241; the result holds
      what was thrown, if anything, and \<^verbatim>\<open>iterationCount\<close> on leaving the loop\<close>
  "agent_loop env ctx iterationCount s =
     (case read_aborted env s of
        (aborted, s1) \<Rightarrow>
          if \<not> aborted \<and> iterationCount < MAX_ITERATIONS
          then (case iteration env ctx (Suc iterationCount) s1 of
                  (Continue, s2) \<Rightarrow> agent_loop env ctx (Suc iterationCount) s2
                | (Break, s2) \<Rightarrow> (None, Suc iterationCount, s2)
                | (Throw e, s2) \<Rightarrow> (Some e, Suc iterationCount, s2))
          else (None, iterationCount, s1))"
  by pat_completeness auto
termination
  by (relation "measure (\<lambda>(env, ctx, iterationCount, s). MAX_ITERATIONS - iterationCount)") auto

declare agent_loop.simps [simp del]

definition report_error :: "Session \<Rightarrow> thrown \<Rightarrow> runner_state \<Rightarrow> runner_state" where
  \<comment> \<open>the \<^verbatim>\<open>catch\<close> of lines 471-483\<close>
  "report_error sess e s =
     onEvent (session_status (session_id sess) Errored (session_title sess) (Some (String_of e))) s"

definition after_loop ::
  "Session \<Rightarrow> thrown option \<times> nat \<times> runner_state \<Rightarrow> runner_state" where
  \<comment> \<open>lines 467-483: the check after the loop, and the \<^verbatim>\<open>catch\<close>\<close>
  "after_loop sess r =
     (case r of
        (Some e, iterationCount, s) \<Rightarrow> report_error sess e s
      | (None, iterationCount, s) \<Rightarrow>
          if iterationCount \<ge> MAX_ITERATIONS
          then report_error sess (JsError ''Error'' ''Max iterations reached'') s
          else s)"

definition initialise ::
  "environment \<Rightarrow> RunnerOptions \<Rightarrow> runner_state \<Rightarrow> (thrown + run_context) \<times> runner_state" where
  \<comment> \<open>lines 116-235\<close>
  "initialise env opts s =
     (case loadApiSettings env of
        None \<Rightarrow> (Inl config_error, s)
      | Some gs \<Rightarrow>
          (case runner_client (Some gs) of
             Inl e \<Rightarrow> (Inl e, s)
           | Inr client \<Rightarrow>
               (let sess = session opts;
                    dir = or_else (session_cwd sess) (process_cwd env);
                    toolExecutor = new_ToolExecutor (process_cwd env) dir (Some gs)
                in case buildHistory env sess (prompt opts) of
                     Inl e \<Rightarrow> (Inl e, s)
                   | Inr msgs \<Rightarrow>
                       (let s1 = sendMessage sess
                                   (Msg_system_init dir (session_id sess) (map fn_name TOOLS)
                                      (or_else (model gs) []) ''default'')
                                   (s\<lparr> messages := msgs \<rparr>);
                            s2 = (if has_onSessionUpdate opts
                                  then s1\<lparr> session_updates :=
                                            session_updates s1 @ [session_id sess] \<rparr>
                                  else s1)
                        in (Inr \<lparr> rc_client = client, rc_settings = gs,
                                  rc_executor = toolExecutor, rc_session = sess \<rparr>, s2)))))"

definition runClaude :: "environment \<Rightarrow> RunnerOptions \<Rightarrow> runner_state" where
  \<comment> \<open>the background task of lines 113-484, run to its end\<close>
  "runClaude env opts =
     (case initialise env opts initial_state of
        (Inl e, s) \<Rightarrow> report_error (session opts) e s
      | (Inr ctx, s) \<Rightarrow> after_loop (session opts) (agent_loop env ctx 0 s))"

section \<open>Observations on a run\<close>

text \<open>
  The terminal events of a run are its \<^verbatim>\<open>result\<close> messages and its
  \<^verbatim>\<open>session.status\<close> events; the footprint of a state is what the claims about the
  loop observe: the terminal events emitted so far, the requests sent to the model and the
  number of tool executions.
\<close>

fun is_result :: "ServerEvent \<Rightarrow> bool" where
  "is_result (stream_message sid (Msg_result is_error num_turns res sess_id)) = True"
| "is_result ev = False"

fun is_status :: "ServerEvent \<Rightarrow> bool" where
  "is_status (session_status sid st title err) = True"
| "is_status ev = False"

definition is_terminal :: "ServerEvent \<Rightarrow> bool" where
  "is_terminal ev = (is_result ev \<or> is_status ev)"

definition footprint :: "runner_state \<Rightarrow> ServerEvent list \<times> ChatRequest list \<times> nat" where
  "footprint s = (filter is_terminal (events s), requests s, tool_runs s)"

text \<open>
  What a response of the model can be, whatever the request and the state in which its
  stream is consumed: a well-formed tool turn (the stream does not fail, at least one
  call is assembled, no slot before the last is left empty, and every argument string
  parses to a value other than \<^verbatim>\<open>null\<close>), or a final turn with no call at all.
\<close>

definition usable_call :: "environment \<Rightarrow> tool_call option \<Rightarrow> bool" where
  "usable_call env c =
     (case c of
        None \<Rightarrow> False
      | Some tc \<Rightarrow>
          (case JSON_parse env (arguments_or_default tc) of
             Inl e \<Rightarrow> False
           | Inr j \<Rightarrow> j \<noteq> JNull))"

definition assembled ::
  "environment \<Rightarrow> run_context \<Rightarrow> chunk list \<Rightarrow> runner_state \<Rightarrow> iteration_vars" where
  "assembled env ctx chunks s =
     fst (snd (consume env (rc_session ctx) chunks None fresh_vars s))"

definition tool_turn :: "environment \<Rightarrow> run_context \<Rightarrow> nat \<Rightarrow> bool" where
  "tool_turn env ctx n =
     (\<forall>req s. case chat_create env (rc_client ctx) n req of
                 (chunks, failure) \<Rightarrow>
                   failure = None
                   \<and> toolCalls (assembled env ctx chunks s) \<noteq> []
                   \<and> list_all (usable_call env) (toolCalls (assembled env ctx chunks s)))"

definition final_turn :: "environment \<Rightarrow> run_context \<Rightarrow> nat \<Rightarrow> string \<Rightarrow> bool" where
  "final_turn env ctx n txt =
     (\<forall>req s. case chat_create env (rc_client ctx) n req of
                 (chunks, failure) \<Rightarrow>
                   failure = None
                   \<and> toolCalls (assembled env ctx chunks s) = []
                   \<and> assistantMessage (assembled env ctx chunks s) = txt)"

definition parsable_call :: "environment \<Rightarrow> tool_call option \<Rightarrow> bool" where
  "parsable_call env c =
     (case c of
        None \<Rightarrow> False
      | Some tc \<Rightarrow>
          (case JSON_parse env (arguments_or_default tc) of Inl e \<Rightarrow> False | Inr j \<Rightarrow> True))"

text \<open>
  A malformed turn: the stream does not fail, and among the assembled calls there is one
  whose argument string \<^verbatim>\<open>JSON.parse\<close> rejects with \<open>e\<close>, every call before it being
  present and parsing.
\<close>

definition malformed_turn :: "environment \<Rightarrow> run_context \<Rightarrow> nat \<Rightarrow> thrown \<Rightarrow> bool" where
  "malformed_turn env ctx n e =
     (\<forall>req s. case chat_create env (rc_client ctx) n req of
                 (chunks, failure) \<Rightarrow>
                   failure = None
                   \<and> (\<exists>pre tc post.
                         toolCalls (assembled env ctx chunks s) = pre @ Some tc # post
                         \<and> list_all (parsable_call env) pre
                         \<and> JSON_parse env (arguments_or_default tc) = Inl e))"


section \<open>Scenarios\<close>

text \<open>Concrete inputs at which the theorems below are evaluated.\<close>

definition demo_result :: ToolResult where
  "demo_result = \<lparr> success = True, tr_output = Some ''ok'', tr_error = None \<rparr>"

definition demo_impls :: tool_impls where
  "demo_impls =
     \<lparr> executeBashTool = (\<lambda>args context. Inr demo_result),
       executeReadTool = (\<lambda>args context. Inl (JsError ''Error'' ''ENOENT: no such file or directory'')),
       executeWriteTool = (\<lambda>args context. Inr demo_result),
       executeEditTool = (\<lambda>args context. Inr demo_result),
       executeGlobTool = (\<lambda>args context. Inr demo_result),
       executeGrepTool = (\<lambda>args context. Inr demo_result),
       executeMemoryTool = (\<lambda>args context. Inr demo_result),
       tavily_search = (\<lambda>key args. Inl (JsError ''Error'' ''Tavily API error: 401 - unauthorized'')),
       tavily_extract = (\<lambda>key args. Inr ''page'') \<rparr>"

definition project_executor :: ToolExecutor where
  "project_executor = new_ToolExecutor ''/'' ''/home/user/project'' None"

definition demo_settings :: ApiSettings where
  "demo_settings =
     \<lparr> apiKey = None, baseUrl = Some ''http://localhost:1234'', model = Some ''qwen'',
       temperature = None, tavilyApiKey = None, enableMemory = Some False \<rparr>"

definition demo_session :: Session where
  "demo_session =
     \<lparr> session_id = ''s1'', session_cwd = Some ''/home/user/project'', session_title = ''demo'' \<rparr>"

definition demo_parse :: "string \<Rightarrow> thrown + json" where
  \<comment> \<open>\<^verbatim>\<open>JSON.parse\<close> on the argument strings of the scenarios: the two objects it
      accepts, and the string cut off in the middle of a key, which it rejects (the wording
      of the message is the engine's); the scenarios give it no other string\<close>
  "demo_parse s =
     (if s = ''{}'' then Inr (JObj [])
      else if s = ''{\"path\":\"x\"}'' then Inr (JObj [(''path'', JStr ''x'')])
      else Inl (JsError ''SyntaxError'' ''Unterminated string in JSON at position 4''))"

definition demo_env :: environment where
  "demo_env =
     \<lparr> loadApiSettings = Some demo_settings,
       process_cwd = ''/home/user/project'',
       sessionStore = Some (\<lambda>sid. if sid = ''s1'' then Some [User_prompt (Some ''hi'')] else None),
       getSystemPrompt = (\<lambda>dir. Inr (''You work in '' @ dir)),
       getInitialPrompt = (\<lambda>task. Inr (''Current date: 2026-01-01 00:00:00. Task: '' @ task)),
       chat_create = (\<lambda>client n req. ([], None)),
       JSON_parse = demo_parse,
       Date_now = (\<lambda>k. 1000 + k),
       aborted_from = None,
       tool_bodies = (\<lambda>j. demo_impls) \<rparr>"

definition demo_fragments :: "chunk list" where
  \<comment> \<open>one call whose argument string arrives in two pieces; id and name come with the first\<close>
  "demo_fragments =
     [Some \<lparr> delta_content = None,
             delta_tool_calls = Some [\<lparr> tcd_index = Some 0, tcd_id = Some ''c1'',
               tcd_function = Some \<lparr> fd_name = Some ''Read'', fd_arguments = Some ''{\"pa'' \<rparr> \<rparr>] \<rparr>,
      Some \<lparr> delta_content = None,
             delta_tool_calls = Some [\<lparr> tcd_index = Some 0, tcd_id = None,
               tcd_function = Some \<lparr> fd_name = None, fd_arguments = Some ''th\":\"x\"}'' \<rparr> \<rparr>] \<rparr>]"

definition demo_opts :: RunnerOptions where
  "demo_opts = \<lparr> prompt = ''list the files'', session = demo_session, has_onSessionUpdate = True \<rparr>"

definition demo_ctx :: run_context where
  \<comment> \<open>what the initial phase builds from the settings and the session of the scenarios\<close>
  "demo_ctx =
     \<lparr> rc_client = \<lparr> client_apiKey = ''dummy-key'',
                     client_baseURL = ''http://localhost:1234/v1'',
                     dangerouslyAllowBrowser = False \<rparr>,
       rc_settings = demo_settings,
       rc_executor = \<lparr> cwd = ''/home/user/project'', apiSettings = Some demo_settings,
                       webSearchTool = None, extractPageTool = None \<rparr>,
       rc_session = demo_session \<rparr>"

definition demo_history :: "ChatMessage list" where
  "demo_history =
     [chat System ''You work in /home/user/project'', chat User ''hi'',
      chat User ''Current date: 2026-01-01 00:00:00. Task: list the files'']"

definition demo_init_event :: ServerEvent where
  "demo_init_event =
     stream_message ''s1''
       (Msg_system_init ''/home/user/project'' ''s1''
          [''Bash'', ''Read'', ''Write'', ''Edit'', ''Glob'', ''Grep'', ''WebSearch'',
           ''ExtractPageContent'', ''Memory'']
          ''qwen'' ''default'')"

definition tool_chunks :: "chunk list" where
  \<comment> \<open>a response that is one complete call of Bash with no arguments\<close>
  "tool_chunks =
     [Some \<lparr> delta_content = None,
             delta_tool_calls = Some [\<lparr> tcd_index = Some 0, tcd_id = Some ''c1'',
               tcd_function = Some \<lparr> fd_name = Some ''Bash'', fd_arguments = Some ''{}'' \<rparr> \<rparr>] \<rparr>]"

definition text_chunks :: "chunk list" where
  \<comment> \<open>a response that is the text Hello, in two chunks, and no call\<close>
  "text_chunks =
     [Some \<lparr> delta_content = Some ''Hel'', delta_tool_calls = None \<rparr>,
      Some \<lparr> delta_content = Some ''lo'', delta_tool_calls = None \<rparr>]"

definition bad_chunks :: "chunk list" where
  \<comment> \<open>two calls: the argument string of the first is cut off, the second is complete\<close>
  "bad_chunks =
     [Some \<lparr> delta_content = None,
             delta_tool_calls = Some
               [\<lparr> tcd_index = Some 0, tcd_id = Some ''c1'',
                  tcd_function = Some \<lparr> fd_name = Some ''Read'', fd_arguments = Some ''{\"pa'' \<rparr> \<rparr>,
                \<lparr> tcd_index = Some 1, tcd_id = Some ''c2'',
                  tcd_function = Some \<lparr> fd_name = Some ''Bash'', fd_arguments = Some ''{}'' \<rparr> \<rparr>] \<rparr>]"


definition late_answer_env :: environment where
  \<comment> \<open>a model that calls a tool 49 times and gives its final answer on the 50th request\<close>
  "late_answer_env =
     demo_env\<lparr> chat_create :=
       (\<lambda>client n req. if n < 50 then (tool_chunks, None) else (text_chunks, None)) \<rparr>"

definition aborted_env :: environment where
  \<comment> \<open>a text answer; \<^verbatim>\<open>abort()\<close> is called after the first chunk has been handled, so
      the third read of the flag (the one before the second chunk) is the first to see it\<close>
  "aborted_env =
     demo_env\<lparr> chat_create := (\<lambda>client n req. (text_chunks, None)), aborted_from := Some 2 \<rparr>"

definition bad_arguments_env :: environment where
  \<comment> \<open>the first response carries the malformed call; any later one would be a final answer\<close>
  "bad_arguments_env =
     demo_env\<lparr> chat_create :=
       (\<lambda>client n req. if n = 1 then (bad_chunks, None) else (text_chunks, None)) \<rparr>"


definition no_arguments_chunks :: "chunk list" where
  \<comment> \<open>a response that is one call of Bash for which no argument fragment arrives: the
      assembled argument string is empty\<close>
  "no_arguments_chunks =
     [Some \<lparr> delta_content = None,
             delta_tool_calls = Some [\<lparr> tcd_index = Some 0, tcd_id = Some ''c1'',
               tcd_function = Some \<lparr> fd_name = Some ''Bash'', fd_arguments = None \<rparr> \<rparr>] \<rparr>]"

definition empty_arguments_env :: environment where
  \<comment> \<open>the first response is the call with the empty argument string, the second the answer\<close>
  "empty_arguments_env =
     demo_env\<lparr> chat_create :=
       (\<lambda>client n req. if n = 1 then (no_arguments_chunks, None) else (text_chunks, None)) \<rparr>"

section \<open>Theorems\<close>

subsection \<open>Path confinement\<close>

text \<open>
  The relative form that \<^verbatim>\<open>isPathSafe\<close> tests is never absolute, so
  the check is the test on its first two characters; a path it accepts does not begin with a
  parent-directory segment.
\<close>

lemma split_sep_nonempty: "split_sep p \<noteq> []"
  by (induction p) (auto split: list.splits)

lemma split_sep_no_sep: "seg \<in> set (split_sep p) \<Longrightarrow> CHR ''/'' \<notin> set seg"
proof (induction p arbitrary: seg)
  case Nil
  then show ?case by simp
next
  case (Cons c cs)
  show ?case
  proof (cases "c = CHR ''/''")
    case True
    with Cons show ?thesis by auto
  next
    case False
    obtain s ss where ss: "split_sep cs = s # ss"
      using split_sep_nonempty [of cs] by (cases "split_sep cs") auto
    with Cons.prems False have "seg = c # s \<or> seg \<in> set ss" by simp
    with Cons.IH [of s] Cons.IH [of seg] ss False show ?thesis by auto
  qed
qed

lemma split_sep_head_prefix: "startsWith p (hd (split_sep p))"
proof (induction p)
  case Nil
  show ?case by (simp add: startsWith_def)
next
  case (Cons c cs)
  obtain s ss where ss: "split_sep cs = s # ss"
    using split_sep_nonempty [of cs] by (cases "split_sep cs") auto
  with Cons show ?case by (simp add: startsWith_def)
qed

lemma strip_common_snd: "set (snd (strip_common xs ys)) \<subseteq> set ys"
  by (induction xs ys rule: strip_common.induct) auto

lemma join_sep_head:
  "segs \<noteq> [] \<Longrightarrow> hd segs \<noteq> [] \<Longrightarrow> join_sep segs \<noteq> [] \<and> hd (join_sep segs) = hd (hd segs)"
  by (induction segs rule: join_sep.induct) auto

lemma relative_not_absolute: "\<not> isAbsolute (relative pcwd from to)"
proof -
  define f where "f = path_segments (resolve pcwd [from])"
  define t where "t = path_segments (resolve pcwd [to])"
  obtain ups downs where sc: "strip_common f t = (ups, downs)"
    by (cases "strip_common f t") auto
  define segs where "segs = map (\<lambda>_. ''..'') ups @ downs"
  have downs: "seg \<in> set downs \<Longrightarrow> seg \<noteq> [] \<and> CHR ''/'' \<notin> set seg" for seg
  proof -
    assume "seg \<in> set downs"
    with strip_common_snd [of f t] sc have "seg \<in> set t" by auto
    then show ?thesis
      using split_sep_no_sep [of seg "resolve pcwd [to]"] by (auto simp: t_def path_segments_def)
  qed
  have "\<not> isAbsolute (join_sep segs)"
  proof (cases segs)
    case Nil
    then show ?thesis by (simp add: isAbsolute_def)
  next
    case (Cons seg rest)
    have "seg \<noteq> [] \<and> hd seg \<noteq> CHR ''/''"
    proof (cases ups)
      case Nil
      with Cons have "seg \<in> set downs" by (simp add: segs_def)
      from downs [OF this] show ?thesis by (cases seg) auto
    next
      case (Cons u us)
      with \<open>segs = seg # rest\<close> show ?thesis by (auto simp: segs_def)
    qed
    with join_sep_head [of segs] Cons show ?thesis by (simp add: isAbsolute_def)
  qed
  then show ?thesis
    using sc by (simp add: relative_def Let_def f_def t_def segs_def isAbsolute_def)
qed

lemma isPathSafe_iff_prefix:
  "isPathSafe pcwd ex filePath \<longleftrightarrow>
     \<not> startsWith (relative pcwd (cwd ex) (resolve pcwd [cwd ex, filePath])) ''..''"
  by (simp add: isPathSafe_def Let_def relative_not_absolute)

lemma isPathSafe_sound:
  assumes "isPathSafe pcwd ex filePath"
  shows "hd (split_sep (relative pcwd (cwd ex) (resolve pcwd [cwd ex, filePath]))) \<noteq> ''..''
         \<and> \<not> isAbsolute (relative pcwd (cwd ex) (resolve pcwd [cwd ex, filePath]))"
proof -
  define rel where "rel = relative pcwd (cwd ex) (resolve pcwd [cwd ex, filePath])"
  from assms have "\<not> startsWith rel ''..''"
    by (simp add: isPathSafe_iff_prefix rel_def)
  with split_sep_head_prefix [of rel] have "hd (split_sep rel) \<noteq> ''..''" by auto
  then show ?thesis by (simp add: rel_def relative_not_absolute)
qed

text \<open>
  C1. \<^verbatim>\<open>isPathSafe\<close> tests the relative form with \<^verbatim>\<open>startsWith('..')\<close>, a test on
  characters. With the working directory \<^verbatim>\<open>/home/user/project\<close>, the file name
  \<^verbatim>\<open>..foo\<close> resolves inside the directory and its relative form \<^verbatim>\<open>..foo\<close> neither
  begins with a parent-directory segment nor is absolute, yet the check answers false.
\<close>

theorem isPathSafe_refuses_name_starting_with_dots:
  "resolve ''/'' [cwd project_executor, ''..foo''] = ''/home/user/project/..foo''
   \<and> relative ''/'' (cwd project_executor) ''/home/user/project/..foo'' = ''..foo''
   \<and> hd (split_sep ''..foo'') \<noteq> ''..''
   \<and> \<not> isAbsolute ''..foo''
   \<and> isPathSafe ''/'' project_executor ''..foo'' = False"
  by (simp add: isPathSafe_def project_executor_def new_ToolExecutor_def resolve_def
      relative_def normalizeString_def norm_step_def path_segments_def startsWith_def
      isAbsolute_def Let_def)

subsection \<open>Tool dispatch\<close>




lemma executeTool_returns: "\<exists>r. executeTool pcwd impls ex n a = Inr r"
  by (cases "dispatch pcwd impls ex n a") (simp_all add: executeTool_def)



subsection \<open>Model client\<close>

lemma endsWith_append: "endsWith (s @ p) p"
  by (simp add: endsWith_def)

text \<open>
  C10. Whenever the configuration check passes, the base URL the model client is built
  with ends with \<^verbatim>\<open>/v1\<close>: a configured value that already ends with \<^verbatim>\<open>/v1\<close> is used
  as it is; otherwise one trailing slash, if there is one, is removed and \<^verbatim>\<open>/v1\<close> is
  appended.
\<close>

theorem client_base_url_ends_with_v1:
  assumes "runner_client guiSettings = Inr c"
  shows "\<exists>gs b. guiSettings = Some gs \<and> baseUrl gs = Some b \<and> b \<noteq> []
           \<and> endsWith (client_baseURL c) ''/v1''
           \<and> (endsWith b ''/v1'' \<longrightarrow> client_baseURL c = b)
           \<and> (\<not> endsWith b ''/v1'' \<longrightarrow>
                 client_baseURL c =
                   (if last b = CHR ''/'' then butlast b else b) @ ''/v1'')"
proof -
  from assms obtain gs where gs: "guiSettings = Some gs"
    by (cases guiSettings) (auto simp: runner_client_def)
  from assms gs obtain b where b: "baseUrl gs = Some b" "b \<noteq> []"
    by (cases "baseUrl gs") (auto simp: runner_client_def truthy_def split: if_splits)
  from assms gs b have c: "client_baseURL c = ensure_v1 b"
    by (auto simp: runner_client_def or_else_def split: if_splits)
  have "endsWith (ensure_v1 b) ''/v1''"
    unfolding ensure_v1_def using endsWith_append [of _ "''/v1''"] by simp
  moreover have "endsWith b ''/v1'' \<longrightarrow> ensure_v1 b = b"
    by (simp add: ensure_v1_def)
  moreover have "\<not> endsWith b ''/v1'' \<longrightarrow>
      ensure_v1 b = (if last b = CHR ''/'' then butlast b else b) @ ''/v1''"
    using b by (simp add: ensure_v1_def strip_trailing_slash_def)
  ultimately show ?thesis using gs b c by simp
qed

theorem client_base_url_witness:
  "runner_client (Some \<lparr> apiKey = None, baseUrl = Some ''http://localhost:1234/'',
       model = Some ''qwen'', temperature = None, tavilyApiKey = None,
       enableMemory = None \<rparr>)
     = Inr \<lparr> client_apiKey = ''dummy-key'', client_baseURL = ''http://localhost:1234/v1'',
             dangerouslyAllowBrowser = False \<rparr>
   \<and> endsWith ''http://localhost:1234/v1'' ''/v1''
   \<and> \<not> endsWith ''http://localhost:1234/'' ''/v1''"
proof -
  have h: "runner_client (Some \<lparr> apiKey = None, baseUrl = Some ''http://localhost:1234/'',
       model = Some ''qwen'', temperature = None, tavilyApiKey = None,
       enableMemory = None \<rparr>)
     = Inr \<lparr> client_apiKey = ''dummy-key'', client_baseURL = ''http://localhost:1234/v1'',
             dangerouslyAllowBrowser = False \<rparr>"
    by (simp add: runner_client_def truthy_def or_else_def ensure_v1_def endsWith_def
        strip_trailing_slash_def)
  from client_base_url_ends_with_v1 [OF h] show ?thesis
    using h by (simp add: endsWith_def)
qed

subsection \<open>Conversation history\<close>

lemma convert_history_last:
  "convert_history L msgs cur lastp = (m, c, l) \<Longrightarrow>
     l = (case last_user_prompt_text L of None \<Rightarrow> lastp | Some t \<Rightarrow> t)"
proof (induction L arbitrary: msgs cur lastp)
  case Nil
  then show ?case by simp
next
  case (Cons ev rest)
  show ?case
  proof (cases ev)
    case (User_prompt p)
    with Cons.prems obtain msgs' cur' where
      "convert_history rest msgs' cur' (or_else p []) = (m, c, l)"
      by (auto simp: Let_def split: if_splits)
    from Cons.IH [OF this] User_prompt show ?thesis
      by (simp split: option.splits)
  next
    case (Text_event t)
    with Cons.prems Cons.IH show ?thesis by (auto split: option.splits)
  next
    case (Tool_result_event out)
    with Cons.prems Cons.IH show ?thesis by (auto split: option.splits)
  next
    case Other_event
    with Cons.prems Cons.IH show ?thesis by (auto split: option.splits)
  qed
qed

lemma load_history_last:
  "snd (load_history env sess msgs) =
     (case last_user_prompt_text (stored_log env sess) of None \<Rightarrow> [] | Some t \<Rightarrow> t)"
proof (cases "stored_log env sess")
  case Nil
  then show ?thesis by (simp add: load_history_def)
next
  case (Cons ev rest)
  obtain m c l where r: "convert_history (ev # rest) msgs [] [] = (m, c, l)"
    by (cases "convert_history (ev # rest) msgs [] []") auto
  from convert_history_last [OF r] r Cons show ?thesis
    by (simp add: load_history_def)
qed

text \<open>
  C5. Let \<open>L\<close> be the log the store returns and \<open>P\<close> the new prompt. If \<open>P\<close> is the text of
  the last \<^verbatim>\<open>user_prompt\<close> event of \<open>L\<close>, the history is exactly the messages built from
  the log: nothing is appended for \<open>P\<close>. If \<open>P\<close> differs from the last prompt seen (the
  empty string when the log has none), the history is those messages followed by one user
  message holding the formatted prompt.
\<close>

theorem new_prompt_appended_unless_duplicate:
  assumes "getSystemPrompt env (or_else (session_cwd sess) (process_cwd env)) = Inr sp"
    and "stored_log env sess = L"
  shows "(last_user_prompt_text L = Some P \<longrightarrow>
            buildHistory env sess P = Inr (fst (load_history env sess [chat System sp])))
       \<and> (\<forall>formatted.
            P \<noteq> (case last_user_prompt_text L of None \<Rightarrow> [] | Some t \<Rightarrow> t)
            \<and> getInitialPrompt env P = Inr formatted \<longrightarrow>
            buildHistory env sess P =
              Inr (fst (load_history env sess [chat System sp]) @ [chat User formatted]))"
proof -
  obtain msgs lastp where lh: "load_history env sess [chat System sp] = (msgs, lastp)"
    by (cases "load_history env sess [chat System sp]") auto
  from load_history_last [of env sess "[chat System sp]"] lh assms(2)
  have lastp: "lastp = (case last_user_prompt_text L of None \<Rightarrow> [] | Some t \<Rightarrow> t)"
    by simp
  have dup: "buildHistory env sess P = Inr msgs" if "last_user_prompt_text L = Some P"
    using that assms(1) lh lastp by (simp add: buildHistory_def)
  have fresh: "buildHistory env sess P = Inr (msgs @ [chat User formatted])"
    if "P \<noteq> (case last_user_prompt_text L of None \<Rightarrow> [] | Some t \<Rightarrow> t)
        \<and> getInitialPrompt env P = Inr formatted" for formatted
    using that assms(1) lh lastp by (simp add: buildHistory_def)
  from dup fresh lh show ?thesis by simp
qed

theorem new_prompt_appended_unless_duplicate_witness:
  "getSystemPrompt demo_env (or_else (session_cwd demo_session) (process_cwd demo_env)) =
     Inr ''You work in /home/user/project''
   \<and> stored_log demo_env demo_session = [User_prompt (Some ''hi'')]
   \<and> last_user_prompt_text [User_prompt (Some ''hi'')] = Some ''hi''
   \<and> buildHistory demo_env demo_session ''hi'' =
       Inr [chat System ''You work in /home/user/project'', chat User ''hi'']
   \<and> getInitialPrompt demo_env ''bye'' = Inr ''Current date: 2026-01-01 00:00:00. Task: bye''
   \<and> buildHistory demo_env demo_session ''bye'' =
       Inr [chat System ''You work in /home/user/project'', chat User ''hi'',
            chat User ''Current date: 2026-01-01 00:00:00. Task: bye'']"
proof -
  have sp: "getSystemPrompt demo_env (or_else (session_cwd demo_session) (process_cwd demo_env)) =
     Inr ''You work in /home/user/project''"
    by (simp add: demo_env_def demo_session_def or_else_def)
  have log: "stored_log demo_env demo_session = [User_prompt (Some ''hi'')]"
    by (simp add: stored_log_def demo_env_def demo_session_def)
  have lastp: "last_user_prompt_text [User_prompt (Some ''hi'')] = Some ''hi''"
    by (simp add: or_else_def)
  have fmt: "getInitialPrompt demo_env ''bye'' = Inr ''Current date: 2026-01-01 00:00:00. Task: bye''"
    by (simp add: demo_env_def)
  have msgs: "fst (load_history demo_env demo_session [chat System ''You work in /home/user/project''])
      = [chat System ''You work in /home/user/project'', chat User ''hi'']"
    by (simp add: load_history_def log or_else_def trim_def Let_def)
  from new_prompt_appended_unless_duplicate [OF sp log, of "''hi''"] lastp msgs
  have a: "buildHistory demo_env demo_session ''hi'' =
       Inr [chat System ''You work in /home/user/project'', chat User ''hi'']"
    by simp
  from new_prompt_appended_unless_duplicate [OF sp log, of "''bye''"] lastp fmt msgs
  have b: "buildHistory demo_env demo_session ''bye'' =
       Inr [chat System ''You work in /home/user/project'', chat User ''hi'',
            chat User ''Current date: 2026-01-01 00:00:00. Task: bye'']"
    by simp
  from sp log lastp a fmt b show ?thesis by simp
qed

subsection \<open>Reassembly of tool calls\<close>

lemma slot_Nil: "slot [] i = None"
  by (simp add: slot_def)

lemma slot_set_slot_same: "slot (set_slot xs i x) i = Some x"
  by (simp add: slot_def set_slot_def nth_append)

lemma slot_set_slot_other: "j \<noteq> i \<Longrightarrow> slot (set_slot xs i x) j = slot xs j"
  by (auto simp: slot_def set_slot_def nth_append nth_Cons')

lemma slot_update_same: "slot xs i = Some cur \<Longrightarrow> slot (xs[i := y]) i = y"
  by (auto simp: slot_def split: if_splits)

lemma slot_update_other: "j \<noteq> i \<Longrightarrow> slot (xs[i := y]) j = slot xs j"
  by (simp add: slot_def)

lemma apply_fragment_other:
  assumes "apply_fragment env (calls, s) fr = (calls', s')" and "tcd_index fr \<noteq> Some i"
  shows "slot calls' i = slot calls i"
  using assms
  by (auto simp: apply_fragment_def slot_set_slot_other slot_update_other now_def
      split: option.splits if_splits prod.splits)

lemma apply_fragment_append:
  assumes "apply_fragment env (calls, s) fr = (calls', s')" and "tcd_index fr = Some i"
    and "slot calls i = Some cur"
  shows "slot calls' i = Some (cur\<lparr> tc_arguments := tc_arguments cur @ delta_arguments fr \<rparr>)"
  using assms by (auto simp: apply_fragment_def slot_update_same split: if_splits)

lemma apply_fragment_open:
  assumes "apply_fragment env (calls, s) fr = (calls', s')" and "tcd_index fr = Some i"
    and "slot calls i = None"
  shows "\<exists>c. slot calls' i = Some c \<and> opened_by i fr c \<and> tc_arguments c = delta_arguments fr"
  using assms
  by (auto simp: apply_fragment_def slot_set_slot_same opened_by_def now_def truthy_def
      or_else_def split: if_splits option.splits)

lemma fold_fragments_slot:
  "foldl (apply_fragment env) (calls, s) frs = (calls', s') \<Longrightarrow>
     slot_spec i (slot calls i) (filter (\<lambda>fr. tcd_index fr = Some i) frs) (slot calls' i)"
proof (induction frs arbitrary: calls s)
  case Nil
  then show ?case by (simp add: slot_spec_def split: option.splits)
next
  case (Cons fr frs)
  obtain calls1 s1 where step: "apply_fragment env (calls, s) fr = (calls1, s1)"
    by (cases "apply_fragment env (calls, s) fr") auto
  with Cons.prems have rest: "foldl (apply_fragment env) (calls1, s1) frs = (calls', s')"
    by simp
  note IH = Cons.IH [OF rest]
  show ?case
  proof (cases "tcd_index fr = Some i")
    case False
    with apply_fragment_other [OF step False] IH show ?thesis by simp
  next
    case True
    show ?thesis
    proof (cases "slot calls i")
      case (Some cur)
      from apply_fragment_append [OF step True Some] IH True Some show ?thesis
        by (simp add: slot_spec_def)
    next
      case None
      from apply_fragment_open [OF step True None] obtain c where
        c: "slot calls1 i = Some c" "opened_by i fr c" "tc_arguments c = delta_arguments fr"
        by blast
      with IH True None show ?thesis
        by (simp add: slot_spec_def opened_by_def)
    qed
  qed
qed

lemma slot_spec_compose:
  assumes "slot_spec i a frs1 b" and "slot_spec i b frs2 c"
  shows "slot_spec i a (frs1 @ frs2) c"
proof (cases a)
  case (Some cur)
  with assms show ?thesis by (simp add: slot_spec_def)
next
  case None
  show ?thesis
  proof (cases frs1)
    case Nil
    with assms None show ?thesis by (simp add: slot_spec_def)
  next
    case (Cons fr rest)
    with assms None show ?thesis
      by (auto simp: slot_spec_def opened_by_def)
  qed
qed

lemma on_chunk_slot:
  assumes "on_chunk env sess ch v s = (v', s')"
  shows "slot_spec i (slot (toolCalls v) i)
           (filter (\<lambda>fr. tcd_index fr = Some i) (fragments_of [ch])) (slot (toolCalls v') i)"
proof (cases ch)
  case None
  with assms show ?thesis
    by (simp add: on_chunk_def fragments_of_def slot_spec_def split: option.splits)
next
  case (Some d)
  obtain v1 s1 where t: "on_text sess (delta_content d) v s = (v1, s1)"
    by (cases "on_text sess (delta_content d) v s") auto
  then have same: "toolCalls v1 = toolCalls v"
    by (auto simp: on_text_def Let_def split: if_splits)
  show ?thesis
  proof (cases "delta_tool_calls d")
    case None
    with assms Some t same show ?thesis
      by (simp add: on_chunk_def fragments_of_def slot_spec_def split: option.splits)
  next
    case (Some frs)
    obtain calls s2 where f: "foldl (apply_fragment env) (toolCalls v1, s1) frs = (calls, s2)"
      by (cases "foldl (apply_fragment env) (toolCalls v1, s1) frs") auto
    with assms \<open>ch = Some d\<close> t Some have "toolCalls v' = calls"
      by (auto simp: on_chunk_def)
    with fold_fragments_slot [OF f, of i] same \<open>ch = Some d\<close> Some show ?thesis
      by (simp add: fragments_of_def)
  qed
qed

lemma consume_slot:
  assumes "aborted_from env = None"
  shows "consume env sess chunks failure v s = (r, v', s') \<Longrightarrow>
     slot_spec i (slot (toolCalls v) i)
       (filter (\<lambda>fr. tcd_index fr = Some i) (fragments_of chunks)) (slot (toolCalls v') i)"
proof (induction chunks arbitrary: v s)
  case Nil
  then show ?case by (simp add: fragments_of_def slot_spec_def split: option.splits)
next
  case (Cons ch rest)
  obtain v2 s2 where step:
    "on_chunk env sess ch v (s\<lparr> polls := Suc (polls s) \<rparr>) = (v2, s2)"
    by (cases "on_chunk env sess ch v (s\<lparr> polls := Suc (polls s) \<rparr>)") auto
  with Cons.prems assms have "consume env sess rest failure v2 s2 = (r, v', s')"
    by (simp add: read_aborted_def)
  from slot_spec_compose [OF on_chunk_slot [OF step, of i] Cons.IH [OF this]]
  show ?case by (simp add: fragments_of_def)
qed

text \<open>
  C4. When a stream is consumed to its end, every slot index \<open>i\<close> ends up with exactly
  what its own fragments say: no descriptor when no fragment names the slot, and
  otherwise one descriptor whose argument string is the concatenation, in order of
  arrival, of the argument pieces of all fragments of the slot, whose name is that of
  the slot's first fragment and whose id is the id of that first fragment, or a
  generated id when that fragment carries none.
\<close>

theorem tool_call_fragments_reassembled:
  assumes "aborted_from env = None"
    and "consume env sess chunks failure fresh_vars s = (r, v, s')"
  shows "case filter (\<lambda>fr. tcd_index fr = Some i) (fragments_of chunks) of
           [] \<Rightarrow> slot (toolCalls v) i = None
         | fr # rest \<Rightarrow>
             (\<exists>c. slot (toolCalls v) i = Some c
                  \<and> tc_arguments c = concat (map delta_arguments (fr # rest))
                  \<and> tc_name c = delta_name fr
                  \<and> (if truthy (tcd_id fr) then tcd_id fr = Some (tc_id c)
                     else \<exists>t. tc_id c = generated_id t i))"
  using consume_slot [OF assms, of i]
  by (auto simp: slot_spec_def fresh_vars_def slot_Nil opened_by_def split: list.splits)

theorem tool_call_fragments_reassembled_witness:
  "aborted_from demo_env = None
   \<and> toolCalls (fst (snd (consume demo_env demo_session demo_fragments None fresh_vars initial_state)))
       = [Some \<lparr> tc_id = ''c1'', tc_name = ''Read'', tc_arguments = ''{\"path\":\"x\"}'' \<rparr>]
   \<and> (case filter (\<lambda>fr. tcd_index fr = Some 0) (fragments_of demo_fragments) of
           [] \<Rightarrow> slot (toolCalls (fst (snd (consume demo_env demo_session demo_fragments None
                     fresh_vars initial_state)))) 0 = None
         | fr # rest \<Rightarrow>
             (\<exists>c. slot (toolCalls (fst (snd (consume demo_env demo_session demo_fragments None
                          fresh_vars initial_state)))) 0 = Some c
                  \<and> tc_arguments c = concat (map delta_arguments (fr # rest))
                  \<and> tc_name c = delta_name fr
                  \<and> (if truthy (tcd_id fr) then tcd_id fr = Some (tc_id c)
                     else \<exists>t. tc_id c = generated_id t 0)))
   \<and> length (filter (\<lambda>fr. tcd_index fr = Some 0) (fragments_of demo_fragments)) = 2"
proof -
  have no_abort: "aborted_from demo_env = None"
    by (simp add: demo_env_def)
  have run: "toolCalls (fst (snd (consume demo_env demo_session demo_fragments None fresh_vars
               initial_state)))
       = [Some \<lparr> tc_id = ''c1'', tc_name = ''Read'', tc_arguments = ''{\"path\":\"x\"}'' \<rparr>]"
    by (simp add: demo_fragments_def read_aborted_def no_abort on_chunk_def on_text_def
        truthy_def apply_fragment_def slot_def set_slot_def fresh_vars_def or_else_def
        delta_name_def delta_arguments_def)
  have two: "length (filter (\<lambda>fr. tcd_index fr = Some 0) (fragments_of demo_fragments)) = 2"
    by (simp add: fragments_of_def demo_fragments_def)
  obtain r v s' where c:
    "consume demo_env demo_session demo_fragments None fresh_vars initial_state = (r, v, s')"
    by (cases "consume demo_env demo_session demo_fragments None fresh_vars initial_state") auto
  then have v: "v = fst (snd (consume demo_env demo_session demo_fragments None fresh_vars
                           initial_state))"
    by simp
  note inst = tool_call_fragments_reassembled [OF no_abort c, of 0, unfolded v]
  from no_abort run inst two show ?thesis
    by (intro conjI)
qed

subsection \<open>What the steps of the loop leave unchanged\<close>

text \<open>
  None of the steps below emits a terminal event or sends a request; only an iteration does,
  and it sends exactly one request.
\<close>

lemma footprint_onEvent: "\<not> is_terminal ev \<Longrightarrow> footprint (onEvent ev s) = footprint s"
  by (simp add: footprint_def onEvent_def)

lemma footprint_sendMessage:
  "\<not> is_result (stream_message (session_id sess) m) \<Longrightarrow>
     footprint (sendMessage sess m s) = footprint s"
  by (simp add: sendMessage_def footprint_onEvent is_terminal_def)

lemma footprint_saveToDb: "footprint (saveToDb env sess r s) = footprint s"
  by (simp add: footprint_def saveToDb_def)

lemma footprint_now: "footprint (snd (now env s)) = footprint s"
  by (simp add: footprint_def now_def)

lemma footprint_read_aborted: "footprint (snd (read_aborted env s)) = footprint s"
  by (simp add: footprint_def read_aborted_def)

lemma footprint_apply_fragment:
  "footprint (snd (apply_fragment env (calls, s) fr)) = footprint s"
  by (simp add: apply_fragment_def footprint_def now_def split: option.splits prod.splits)

lemma footprint_fold_fragments:
  "footprint (snd (foldl (apply_fragment env) (calls, s) frs)) = footprint s"
proof (induction frs arbitrary: calls s)
  case Nil
  show ?case by simp
next
  case (Cons fr frs)
  obtain calls1 s1 where step: "apply_fragment env (calls, s) fr = (calls1, s1)"
    by (cases "apply_fragment env (calls, s) fr") auto
  from footprint_apply_fragment [of env calls s fr] step have "footprint s1 = footprint s"
    by simp
  with Cons.IH [of calls1 s1] step show ?case by simp
qed

lemma footprint_on_text: "footprint (snd (on_text sess c v s)) = footprint s"
  by (simp add: on_text_def Let_def footprint_sendMessage)

lemma footprint_on_chunk: "footprint (snd (on_chunk env sess ch v s)) = footprint s"
proof (cases ch)
  case None
  then show ?thesis by (simp add: on_chunk_def)
next
  case (Some d)
  obtain v1 s1 where t: "on_text sess (delta_content d) v s = (v1, s1)"
    by (cases "on_text sess (delta_content d) v s") auto
  from footprint_on_text [of sess "delta_content d" v s] t have 1: "footprint s1 = footprint s"
    by simp
  show ?thesis
  proof (cases "delta_tool_calls d")
    case None
    with Some t 1 show ?thesis by (simp add: on_chunk_def)
  next
    case (Some frs)
    from footprint_fold_fragments [of env "toolCalls v1" s1 frs] 1 \<open>ch = Some d\<close> t Some
    show ?thesis by (auto simp: on_chunk_def split: prod.splits)
  qed
qed

lemma footprint_consume:
  "footprint (snd (snd (consume env sess chunks failure v s))) = footprint s"
proof (induction chunks arbitrary: v s)
  case Nil
  show ?case by simp
next
  case (Cons ch rest)
  obtain ab s1 where p: "read_aborted env s = (ab, s1)"
    by (cases "read_aborted env s") auto
  from footprint_read_aborted [of env s] p have 1: "footprint s1 = footprint s" by simp
  obtain v2 s2 where c: "on_chunk env sess ch v s1 = (v2, s2)"
    by (cases "on_chunk env sess ch v s1") auto
  from footprint_on_chunk [of env sess ch v s1] c 1 have 2: "footprint s2 = footprint s" by simp
  from Cons.IH [of v2 s2] p c 1 2 show ?case by simp
qed

lemma consume_not_aborted:
  "aborted_from env = None \<Longrightarrow> fst (consume env sess chunks failure v s) = failure"
proof (induction chunks arbitrary: v s)
  case Nil
  show ?case by simp
next
  case (Cons ch rest)
  then show ?case
    by (simp add: read_aborted_def split: prod.splits)
qed


lemma consume_assembled:
  assumes "aborted_from env = None"
  shows "\<exists>s1. consume env (rc_session ctx) chunks None fresh_vars s
            = (None, assembled env ctx chunks s, s1)
          \<and> footprint s1 = footprint s"
proof -
  obtain r v s1 where c: "consume env (rc_session ctx) chunks None fresh_vars s = (r, v, s1)"
    by (cases "consume env (rc_session ctx) chunks None fresh_vars s") auto
  from consume_not_aborted [OF assms, of "rc_session ctx" chunks None fresh_vars s] c
  have "r = None" by simp
  moreover from c have "v = assembled env ctx chunks s" by (simp add: assembled_def)
  moreover from footprint_consume [of env "rc_session ctx" chunks None fresh_vars s] c
  have "footprint s1 = footprint s" by simp
  ultimately show ?thesis using c by simp
qed

lemma terminal_of_footprint:
  "footprint s' = footprint s \<Longrightarrow>
     filter is_terminal (events s') = filter is_terminal (events s) \<and> requests s' = requests s"
  by (simp add: footprint_def)

lemma footprint_add_request:
  "footprint (s\<lparr> requests := requests s @ [req] \<rparr>) =
     (filter is_terminal (events s), requests s @ [req], tool_runs s)"
  by (simp add: footprint_def)

lemma footprint_after_tool: "footprint (after_tool env sess tc r s) = footprint s"
  by (simp add: after_tool_def Let_def footprint_saveToDb footprint_sendMessage)

lemma footprint_announce: "footprint (snd (announce env sess calls s)) = footprint s"
proof (induction calls arbitrary: s)
  case Nil
  show ?case by simp
next
  case (Cons c calls)
  show ?case
  proof (cases c)
    case None
    then show ?thesis by simp
  next
    case (Some tc)
    show ?thesis
    proof (cases "JSON_parse env (arguments_or_default tc)")
      case (Inl e)
      with Some show ?thesis by simp
    next
      case (Inr toolInput)
      with Some Cons.IH show ?thesis
        by (simp add: footprint_saveToDb footprint_sendMessage)
    qed
  qed
qed

lemma execute_tools_quiet:
  "filter is_terminal (events (snd (snd (execute_tools env ctx calls acc s))))
     = filter is_terminal (events s)
   \<and> requests (snd (snd (execute_tools env ctx calls acc s))) = requests s"
proof (induction calls arbitrary: acc s)
  case Nil
  show ?case by simp
next
  case (Cons c calls)
  obtain ab s1 where p: "read_aborted env s = (ab, s1)"
    by (cases "read_aborted env s") auto
  then have s1: "filter is_terminal (events s1) = filter is_terminal (events s)"
    "requests s1 = requests s"
    by (auto simp: read_aborted_def)
  show ?case
  proof (cases ab)
    case True
    with p s1 show ?thesis by simp
  next
    case False
    note not_aborted = this
    show ?thesis
    proof (cases c)
      case None
      with p s1 not_aborted show ?thesis by simp
    next
      case (Some tc)
      show ?thesis
      proof (cases "JSON_parse env (arguments_or_default tc)")
        case (Inl e)
        with p s1 not_aborted Some show ?thesis by simp
      next
        case (Inr toolArgs)
        note parsed = this
        show ?thesis
        proof (cases "get_explanation toolArgs")
          case (Inl e)
          with p s1 not_aborted Some parsed show ?thesis by simp
        next
          case (Inr explanation)
          define s2 where "s2 = onEvent (permission_request (session_id (rc_session ctx))
                                   (tc_id tc) (tc_name tc) toolArgs explanation) s1"
          define s2' where "s2' = s2\<lparr> tool_runs := Suc (tool_runs s2) \<rparr>"
          have s2: "filter is_terminal (events s2') = filter is_terminal (events s)"
            "requests s2' = requests s"
            using s1 by (simp_all add: s2'_def s2_def onEvent_def is_terminal_def)
          show ?thesis
          proof (cases "executeTool (process_cwd env) (tool_bodies env (tool_runs s2))
                          (rc_executor ctx) (tc_name tc) toolArgs")
            case (Inl e)
            with p not_aborted Some parsed Inr s2 show ?thesis
              by (simp add: Let_def s2_def [symmetric] s2'_def [symmetric])
          next
            case (Inr r)
            define s3 where "s3 = after_tool env (rc_session ctx) tc r s2'"
            from terminal_of_footprint [OF footprint_after_tool [of env "rc_session ctx" tc r s2']]
              s2
            have s3: "filter is_terminal (events s3) = filter is_terminal (events s)"
              "requests s3 = requests s"
              by (simp_all add: s3_def)
            have "execute_tools env ctx (c # calls) acc s =
                    execute_tools env ctx calls (acc @ [tool_message tc r]) s3"
              using p not_aborted Some parsed \<open>get_explanation toolArgs = Inr explanation\<close> Inr
              by (simp add: Let_def s2_def [symmetric] s2'_def [symmetric] s3_def [symmetric])
            with Cons.IH [of "acc @ [tool_message tc r]" s3] s3 show ?thesis by simp
          qed
        qed
      qed
    qed
  qed
qed

lemma with_tools_quiet:
  "fst (with_tools env ctx v s) \<noteq> Break
   \<and> filter is_terminal (events (snd (with_tools env ctx v s))) = filter is_terminal (events s)
   \<and> requests (snd (with_tools env ctx v s)) = requests s"
proof -
  define s1 where "s1 = s\<lparr> messages := messages s @
                   [\<lparr> role = Assistant, content = assistantMessage v,
                      tool_calls = Some (toolCalls v), tool_call_id = None, msg_name = None \<rparr>] \<rparr>"
  define s2 where "s2 = (if trim (assistantMessage v) \<noteq> []
                then (case now env s1 of (t, s') \<Rightarrow>
                        saveToDb env (rc_session ctx)
                          (Db_text (assistantMessage v) (''msg_text_'' @ show_nat t)) s')
                else s1)"
  have f2: "footprint s2 = footprint s"
    by (simp add: s2_def s1_def footprint_saveToDb now_def) (simp add: footprint_def)
  obtain r3 s3 where a: "announce env (rc_session ctx) (toolCalls v) s2 = (r3, s3)"
    by (cases "announce env (rc_session ctx) (toolCalls v) s2") auto
  with footprint_announce [of env "rc_session ctx" "toolCalls v" s2] f2
  have f3: "footprint s3 = footprint s" by simp
  obtain r4 results s4 where e: "execute_tools env ctx (toolCalls v) [] s3 = (r4, results, s4)"
    by (cases "execute_tools env ctx (toolCalls v) [] s3") auto
  with execute_tools_quiet [of env ctx "toolCalls v" "[]" s3] f3
  have f4: "filter is_terminal (events s4) = filter is_terminal (events s)"
    "requests s4 = requests s"
    by (simp_all add: footprint_def)
  show ?thesis
    using a e f3 f4
    by (cases r3; cases r4)
       (simp_all add: with_tools_def Let_def s1_def [symmetric] s2_def [symmetric]
          footprint_def)
qed

lemma finish_without_tools_events:
  "filter is_terminal (events (finish_without_tools env sess n v s)) =
     filter is_terminal (events s)
       @ [stream_message (session_id sess) (Msg_result False n (assistantMessage v) (session_id sess)),
          session_status (session_id sess) Completed (session_title sess) None]
   \<and> requests (finish_without_tools env sess n v s) = requests s"
  by (simp add: finish_without_tools_def now_def sendMessage_def onEvent_def saveToDb_def
      is_terminal_def)

lemma iteration_requests:
  "requests (snd (iteration env ctx n s)) = requests s @ [request_for ctx (messages s)]"
proof -
  define req where "req = request_for ctx (messages s)"
  define s0 where "s0 = s\<lparr> requests := requests s @ [req] \<rparr>"
  obtain chunks failure where cc: "chat_create env (rc_client ctx) n req = (chunks, failure)"
    by (cases "chat_create env (rc_client ctx) n req") auto
  obtain r v s1 where c: "consume env (rc_session ctx) chunks failure fresh_vars s0 = (r, v, s1)"
    by (cases "consume env (rc_session ctx) chunks failure fresh_vars s0") auto
  with footprint_consume [of env "rc_session ctx" chunks failure fresh_vars s0]
  have f1: "requests s1 = requests s0" by (simp add: footprint_def)
  define s2 where "s2 = (if contentStarted v
                         then sendMessage (rc_session ctx) (Msg_stream_event content_block_stop) s1
                         else s1)"
  have f2: "requests s2 = requests s0"
    using f1 by (simp add: s2_def sendMessage_def onEvent_def)
  show ?thesis
    using cc c f1 f2 with_tools_quiet [of env ctx v s2]
      finish_without_tools_events [of env "rc_session ctx" n v s2]
    by (cases r)
       (simp_all add: iteration_def Let_def req_def [symmetric] s0_def [symmetric]
          s2_def [symmetric], simp_all add: s0_def)
qed

lemma agent_loop_requests:
  assumes "\<And>msgs. P (request_for ctx msgs)"
  shows "list_all P (requests s) \<Longrightarrow>
     list_all P (requests (snd (snd (agent_loop env ctx n s))))"
proof (induction "MAX_ITERATIONS - n" arbitrary: n s)
  case 0
  then show ?case
    by (subst agent_loop.simps) (simp add: read_aborted_def)
next
  case (Suc k)
  define s1 where "s1 = s\<lparr> polls := Suc (polls s) \<rparr>"
  obtain fl s2 where it: "iteration env ctx (Suc n) s1 = (fl, s2)"
    by (cases "iteration env ctx (Suc n) s1") auto
  with iteration_requests [of env ctx "Suc n" s1] Suc.prems assms
  have p2: "list_all P (requests s2)" by (simp add: s1_def)
  from Suc.hyps(2) have "k = MAX_ITERATIONS - Suc n" by simp
  note IH = Suc.hyps(1) [OF this p2]
  show ?case
  proof (cases "fst (read_aborted env s)")
    case True
    then show ?thesis
      using Suc.prems
      by (subst agent_loop.simps) (simp add: read_aborted_def)
  next
    case False
    from Suc.hyps(2) have lt: "n < MAX_ITERATIONS" by simp
    show ?thesis
    proof (cases fl)
      case Continue
      with False lt it IH show ?thesis
        by (subst agent_loop.simps) (simp add: read_aborted_def s1_def [symmetric])
    next
      case Break
      with False lt it p2 show ?thesis
        by (subst agent_loop.simps) (simp add: read_aborted_def s1_def [symmetric])
    next
      case (Throw e)
      with False lt it p2 show ?thesis
        by (subst agent_loop.simps) (simp add: read_aborted_def s1_def [symmetric])
    qed
  qed
qed

lemma initialise_footprint:
  assumes "initialise env opts initial_state = (Inr ctx, s0)"
  shows "filter is_terminal (events s0) = [] \<and> requests s0 = []
         \<and> rc_session ctx = session opts"
  using assms
  by (auto simp: initialise_def Let_def initial_state_def sendMessage_def onEvent_def
      is_terminal_def split: option.splits sum.splits if_splits)

lemma runClaude_requests:
  "list_all (\<lambda>r. req_tools r = ALL_TOOL_DEFINITIONS) (requests (runClaude env opts))"
proof (cases "initialise env opts initial_state")
  case (Pair res s0)
  show ?thesis
  proof (cases res)
    case (Inl e)
    with Pair have "requests s0 = []"
      by (auto simp: initialise_def Let_def initial_state_def split: option.splits sum.splits)
    with Pair Inl show ?thesis
      by (simp add: runClaude_def report_error_def onEvent_def)
  next
    case (Inr ctx)
    with Pair initialise_footprint [of env opts ctx s0] have "requests s0 = []" by simp
    then have "list_all (\<lambda>r. req_tools r = ALL_TOOL_DEFINITIONS)
                 (requests (snd (snd (agent_loop env ctx 0 s0))))"
      using agent_loop_requests [of "\<lambda>r. req_tools r = ALL_TOOL_DEFINITIONS" ctx s0 env 0]
      by (simp add: request_for_def TOOLS_def)
    with Pair Inr show ?thesis
      by (cases "agent_loop env ctx 0 s0")
         (auto simp: runClaude_def after_loop_def report_error_def onEvent_def
            split: option.splits)
  qed
qed

subsection \<open>One iteration, by the kind of response\<close>

lemma usable_call_parses:
  "usable_call env c \<Longrightarrow>
     \<exists>tc j. c = Some tc \<and> JSON_parse env (arguments_or_default tc) = Inr j \<and> j \<noteq> JNull"
  by (auto simp: usable_call_def split: option.splits sum.splits)

lemma get_explanation_returns: "j \<noteq> JNull \<Longrightarrow> \<exists>x. get_explanation j = Inr x"
  by (cases j) simp_all

lemma announce_usable:
  "list_all (usable_call env) calls \<Longrightarrow>
     fst (announce env sess calls s) = None
     \<and> footprint (snd (announce env sess calls s)) = footprint s"
proof (induction calls arbitrary: s)
  case Nil
  show ?case by simp
next
  case (Cons c calls)
  from Cons.prems obtain tc j where
    c: "c = Some tc" "JSON_parse env (arguments_or_default tc) = Inr j"
    using usable_call_parses [of env c] by auto
  from Cons.prems have "list_all (usable_call env) calls" by simp
  from Cons.IH [OF this] c show ?case
    by (simp add: footprint_saveToDb footprint_sendMessage)
qed

lemma execute_tools_usable:
  assumes "aborted_from env = None"
  shows "list_all (usable_call env) calls \<Longrightarrow>
     \<exists>results s'. execute_tools env ctx calls acc s = (None, results, s')
       \<and> filter is_terminal (events s') = filter is_terminal (events s)
       \<and> requests s' = requests s"
proof (induction calls arbitrary: acc s)
  case Nil
  show ?case by simp
next
  case (Cons c calls)
  from Cons.prems obtain tc j where
    c: "c = Some tc" "JSON_parse env (arguments_or_default tc) = Inr j" "j \<noteq> JNull"
    using usable_call_parses [of env c] by auto
  from get_explanation_returns [OF c(3)] obtain x where x: "get_explanation j = Inr x" ..
  define s1 where "s1 = s\<lparr> polls := Suc (polls s) \<rparr>"
  define s2 where "s2 = onEvent (permission_request (session_id (rc_session ctx))
                           (tc_id tc) (tc_name tc) j x) s1"
  obtain r where r: "executeTool (process_cwd env) (tool_bodies env (tool_runs s2))
                       (rc_executor ctx) (tc_name tc) j = Inr r"
    using executeTool_returns by blast
  define s3 where "s3 = after_tool env (rc_session ctx) tc r (s2\<lparr> tool_runs := Suc (tool_runs s2) \<rparr>)"
  have step: "execute_tools env ctx (c # calls) acc s =
                execute_tools env ctx calls (acc @ [tool_message tc r]) s3"
    using assms c x r by (simp add: read_aborted_def s1_def s2_def s3_def Let_def)
  have fp: "filter is_terminal (events s3) = filter is_terminal (events s)
            \<and> requests s3 = requests s"
    using terminal_of_footprint [OF footprint_after_tool
            [of env "rc_session ctx" tc r "s2\<lparr> tool_runs := Suc (tool_runs s2) \<rparr>"]]
    by (simp add: s3_def s2_def s1_def onEvent_def is_terminal_def)
  from Cons.prems have "list_all (usable_call env) calls" by simp
  from Cons.IH [OF this, of "acc @ [tool_message tc r]" s3] step fp show ?case by auto
qed

lemma with_tools_usable:
  assumes "aborted_from env = None" and "list_all (usable_call env) (toolCalls v)"
  shows "\<exists>s'. with_tools env ctx v s = (Continue, s')
       \<and> filter is_terminal (events s') = filter is_terminal (events s)
       \<and> requests s' = requests s"
proof -
  define s1 where "s1 = s\<lparr> messages := messages s @
                   [\<lparr> role = Assistant, content = assistantMessage v,
                      tool_calls = Some (toolCalls v), tool_call_id = None, msg_name = None \<rparr>] \<rparr>"
  define s2 where "s2 = (if trim (assistantMessage v) \<noteq> []
                then (case now env s1 of (t, s') \<Rightarrow>
                        saveToDb env (rc_session ctx)
                          (Db_text (assistantMessage v) (''msg_text_'' @ show_nat t)) s')
                else s1)"
  have f2: "footprint s2 = footprint s"
    by (simp add: s2_def s1_def footprint_saveToDb now_def) (simp add: footprint_def)
  obtain s3 where a: "announce env (rc_session ctx) (toolCalls v) s2 = (None, s3)"
    and f3: "footprint s3 = footprint s2"
    using announce_usable [OF assms(2), of "rc_session ctx" s2]
    by (cases "announce env (rc_session ctx) (toolCalls v) s2") auto
  from execute_tools_usable [OF assms, of ctx "[]" s3] obtain results s4 where
    e: "execute_tools env ctx (toolCalls v) [] s3 = (None, results, s4)"
    and f4: "filter is_terminal (events s4) = filter is_terminal (events s3)"
            "requests s4 = requests s3"
    by blast
  have "with_tools env ctx v s = (Continue, s4\<lparr> messages := messages s4 @ results \<rparr>)"
    using a e by (simp add: with_tools_def Let_def s1_def [symmetric] s2_def [symmetric])
  with f2 f3 f4 show ?thesis by (simp add: footprint_def)
qed

lemma iteration_tool_turn:
  assumes "aborted_from env = None" and "tool_turn env ctx n"
  shows "\<exists>s'. iteration env ctx n s = (Continue, s')
       \<and> filter is_terminal (events s') = filter is_terminal (events s)
       \<and> requests s' = requests s @ [request_for ctx (messages s)]"
proof -
  define req where "req = request_for ctx (messages s)"
  define s0 where "s0 = s\<lparr> requests := requests s @ [req] \<rparr>"
  obtain chunks failure where cc: "chat_create env (rc_client ctx) n req = (chunks, failure)"
    by (cases "chat_create env (rc_client ctx) n req") auto
  from assms(2) cc have ok: "failure = None"
      "toolCalls (assembled env ctx chunks s0) \<noteq> []"
      "list_all (usable_call env) (toolCalls (assembled env ctx chunks s0))"
    by (auto simp: tool_turn_def split: prod.splits)
  from consume_assembled [OF assms(1), of ctx chunks s0] obtain s1 where
    c: "consume env (rc_session ctx) chunks None fresh_vars s0
          = (None, assembled env ctx chunks s0, s1)"
    and f1: "footprint s1 = footprint s0" by blast
  define v where "v = assembled env ctx chunks s0"
  define s2 where "s2 = (if contentStarted v
                         then sendMessage (rc_session ctx) (Msg_stream_event content_block_stop) s1
                         else s1)"
  have f2: "footprint s2 = footprint s0"
    using f1 by (simp add: s2_def footprint_sendMessage)
  from with_tools_usable [OF assms(1), of v ctx s2] ok(3) obtain s' where
    w: "with_tools env ctx v s2 = (Continue, s')"
    and f3: "filter is_terminal (events s') = filter is_terminal (events s2)"
            "requests s' = requests s2"
    by (auto simp: v_def)
  have "iteration env ctx n s = (Continue, s')"
    using cc ok(1,2) c w
    by (simp add: iteration_def Let_def req_def [symmetric] s0_def [symmetric]
        v_def [symmetric] s2_def [symmetric])
  with f2 f3 show ?thesis
    by (simp add: footprint_def s0_def req_def)
qed

lemma iteration_final_turn:
  assumes "aborted_from env = None" and "final_turn env ctx n txt"
  shows "\<exists>s'. iteration env ctx n s = (Break, s')
       \<and> filter is_terminal (events s') =
           filter is_terminal (events s)
             @ [stream_message (session_id (rc_session ctx))
                  (Msg_result False n txt (session_id (rc_session ctx))),
                session_status (session_id (rc_session ctx)) Completed
                  (session_title (rc_session ctx)) None]
       \<and> requests s' = requests s @ [request_for ctx (messages s)]"
proof -
  define req where "req = request_for ctx (messages s)"
  define s0 where "s0 = s\<lparr> requests := requests s @ [req] \<rparr>"
  obtain chunks failure where cc: "chat_create env (rc_client ctx) n req = (chunks, failure)"
    by (cases "chat_create env (rc_client ctx) n req") auto
  from assms(2) cc have ok: "failure = None"
      "toolCalls (assembled env ctx chunks s0) = []"
      "assistantMessage (assembled env ctx chunks s0) = txt"
    by (auto simp: final_turn_def split: prod.splits)
  from consume_assembled [OF assms(1), of ctx chunks s0] obtain s1 where
    c: "consume env (rc_session ctx) chunks None fresh_vars s0
          = (None, assembled env ctx chunks s0, s1)"
    and f1: "footprint s1 = footprint s0" by blast
  define v where "v = assembled env ctx chunks s0"
  define s2 where "s2 = (if contentStarted v
                         then sendMessage (rc_session ctx) (Msg_stream_event content_block_stop) s1
                         else s1)"
  have f2: "footprint s2 = footprint s0"
    using f1 by (simp add: s2_def footprint_sendMessage)
  have "iteration env ctx n s = (Break, finish_without_tools env (rc_session ctx) n v s2)"
    using cc ok(1,2) c
    by (simp add: iteration_def Let_def req_def [symmetric] s0_def [symmetric]
        v_def [symmetric] s2_def [symmetric])
  with finish_without_tools_events [of env "rc_session ctx" n v s2] f2 ok(3)
  show ?thesis
    by (simp add: footprint_def s0_def req_def v_def)
qed



lemma announce_malformed:
  "list_all (parsable_call env) pre \<Longrightarrow>
   JSON_parse env (arguments_or_default tc) = Inl e \<Longrightarrow>
     fst (announce env sess (pre @ Some tc # post) s) = Some e
     \<and> footprint (snd (announce env sess (pre @ Some tc # post) s)) = footprint s"
proof (induction pre arbitrary: s)
  case Nil
  then show ?case by simp
next
  case (Cons c pre)
  from Cons.prems(1) obtain tc' j where
    c: "c = Some tc'" "JSON_parse env (arguments_or_default tc') = Inr j"
    by (auto simp: parsable_call_def split: option.splits sum.splits)
  from Cons.prems have "list_all (parsable_call env) pre" by simp
  from Cons.IH [OF this Cons.prems(2)] c show ?case
    by (simp add: footprint_saveToDb footprint_sendMessage)
qed

lemma with_tools_malformed:
  assumes "toolCalls v = pre @ Some tc # post"
    and "list_all (parsable_call env) pre"
    and "JSON_parse env (arguments_or_default tc) = Inl e"
  shows "\<exists>s'. with_tools env ctx v s = (Throw e, s') \<and> footprint s' = footprint s"
proof -
  define s1 where "s1 = s\<lparr> messages := messages s @
                   [\<lparr> role = Assistant, content = assistantMessage v,
                      tool_calls = Some (toolCalls v), tool_call_id = None, msg_name = None \<rparr>] \<rparr>"
  define s2 where "s2 = (if trim (assistantMessage v) \<noteq> []
                then (case now env s1 of (t, s') \<Rightarrow>
                        saveToDb env (rc_session ctx)
                          (Db_text (assistantMessage v) (''msg_text_'' @ show_nat t)) s')
                else s1)"
  have f2: "footprint s2 = footprint s"
    by (simp add: s2_def s1_def footprint_saveToDb now_def) (simp add: footprint_def)
  obtain s3 where a: "announce env (rc_session ctx) (toolCalls v) s2 = (Some e, s3)"
    and f3: "footprint s3 = footprint s2"
    using announce_malformed [OF assms(2,3), of "rc_session ctx" post s2] assms(1)
    by (cases "announce env (rc_session ctx) (toolCalls v) s2") auto
  have "with_tools env ctx v s = (Throw e, s3)"
    using a by (simp add: with_tools_def Let_def s1_def [symmetric] s2_def [symmetric])
  with f2 f3 show ?thesis by simp
qed

lemma iteration_malformed_turn:
  assumes "aborted_from env = None" and "malformed_turn env ctx n e"
  shows "\<exists>s'. iteration env ctx n s = (Throw e, s')
       \<and> filter is_terminal (events s') = filter is_terminal (events s)
       \<and> requests s' = requests s @ [request_for ctx (messages s)]
       \<and> tool_runs s' = tool_runs s"
proof -
  define req where "req = request_for ctx (messages s)"
  define s0 where "s0 = s\<lparr> requests := requests s @ [req] \<rparr>"
  obtain chunks failure where cc: "chat_create env (rc_client ctx) n req = (chunks, failure)"
    by (cases "chat_create env (rc_client ctx) n req") auto
  from assms(2) cc obtain pre tc post where ok: "failure = None"
      "toolCalls (assembled env ctx chunks s0) = pre @ Some tc # post"
      "list_all (parsable_call env) pre"
      "JSON_parse env (arguments_or_default tc) = Inl e"
    unfolding malformed_turn_def by (auto split: prod.splits) blast
  from consume_assembled [OF assms(1), of ctx chunks s0] obtain s1 where
    c: "consume env (rc_session ctx) chunks None fresh_vars s0
          = (None, assembled env ctx chunks s0, s1)"
    and f1: "footprint s1 = footprint s0" by blast
  define v where "v = assembled env ctx chunks s0"
  define s2 where "s2 = (if contentStarted v
                         then sendMessage (rc_session ctx) (Msg_stream_event content_block_stop) s1
                         else s1)"
  have f2: "footprint s2 = footprint s0"
    using f1 by (simp add: s2_def footprint_sendMessage)
  from with_tools_malformed [of v pre tc post env e ctx s2] ok obtain s' where
    w: "with_tools env ctx v s2 = (Throw e, s')" and f3: "footprint s' = footprint s2"
    by (auto simp: v_def)
  have "iteration env ctx n s = (Throw e, s')"
    using cc ok(1,2) c w
    by (simp add: iteration_def Let_def req_def [symmetric] s0_def [symmetric]
        v_def [symmetric] s2_def [symmetric])
  with f2 f3 show ?thesis
    by (simp add: footprint_def s0_def req_def)
qed

subsection \<open>Whole runs\<close>


lemma loop_to_final:
  assumes "aborted_from env = None"
    and "\<forall>m. m < k \<longrightarrow> tool_turn env ctx m"
    and "final_turn env ctx k txt"
    and "k \<le> MAX_ITERATIONS"
  shows "n < k \<Longrightarrow>
     \<exists>s'. agent_loop env ctx n s = (None, k, s')
       \<and> filter is_terminal (events s') =
           filter is_terminal (events s)
             @ [stream_message (session_id (rc_session ctx))
                  (Msg_result False k txt (session_id (rc_session ctx))),
                session_status (session_id (rc_session ctx)) Completed
                  (session_title (rc_session ctx)) None]
       \<and> length (requests s') = length (requests s) + (k - n)"
proof (induction "k - Suc n" arbitrary: n s)
  case 0
  then have k: "k = Suc n" by simp
  with assms(4) have lt: "n < MAX_ITERATIONS" by simp
  define s1 where "s1 = s\<lparr> polls := Suc (polls s) \<rparr>"
  from iteration_final_turn [OF assms(1), of ctx "Suc n" "txt" s1] assms(3) k obtain s2 where
    it: "iteration env ctx (Suc n) s1 = (Break, s2)"
    and f: "filter is_terminal (events s2) =
           filter is_terminal (events s1)
             @ [stream_message (session_id (rc_session ctx))
                  (Msg_result False k txt (session_id (rc_session ctx))),
                session_status (session_id (rc_session ctx)) Completed
                  (session_title (rc_session ctx)) None]"
           "requests s2 = requests s1 @ [request_for ctx (messages s1)]"
    by auto
  have "agent_loop env ctx n s = (None, Suc n, s2)"
    using assms(1) lt it
    by (subst agent_loop.simps) (simp add: read_aborted_def s1_def [symmetric])
  with f k show ?case by (simp add: s1_def)
next
  case (Suc j)
  then have lt: "Suc n < k" by simp
  with assms(4) have ltm: "n < MAX_ITERATIONS" by simp
  define s1 where "s1 = s\<lparr> polls := Suc (polls s) \<rparr>"
  from assms(2) lt have "tool_turn env ctx (Suc n)" by simp
  from iteration_tool_turn [OF assms(1) this, of s1] obtain s2 where
    it: "iteration env ctx (Suc n) s1 = (Continue, s2)"
    and f: "filter is_terminal (events s2) = filter is_terminal (events s1)"
           "requests s2 = requests s1 @ [request_for ctx (messages s1)]"
    by blast
  have step: "agent_loop env ctx n s = agent_loop env ctx (Suc n) s2"
    using assms(1) ltm it
    by (subst agent_loop.simps) (simp add: read_aborted_def s1_def [symmetric])
  from Suc.hyps(2) have "j = k - Suc (Suc n)" by simp
  from Suc.hyps(1) [OF this lt, of s2] obtain s' where
    "agent_loop env ctx (Suc n) s2 = (None, k, s')"
    "filter is_terminal (events s') =
           filter is_terminal (events s2)
             @ [stream_message (session_id (rc_session ctx))
                  (Msg_result False k txt (session_id (rc_session ctx))),
                session_status (session_id (rc_session ctx)) Completed
                  (session_title (rc_session ctx)) None]"
    "length (requests s') = length (requests s2) + (k - Suc n)"
    by auto
  with step f lt show ?case
    by (simp add: s1_def)
qed



lemma run_with_final_turn:
  assumes "initialise env opts initial_state = (Inr ctx, s0)"
    and "aborted_from env = None"
    and "\<forall>m. m < k \<longrightarrow> tool_turn env ctx m"
    and "final_turn env ctx k final_text"
    and "0 < k" and "k \<le> MAX_ITERATIONS"
  shows "filter is_terminal (events (runClaude env opts)) =
           [stream_message (session_id (session opts))
              (Msg_result False k final_text (session_id (session opts))),
            session_status (session_id (session opts)) Completed (session_title (session opts))
              None]
           @ (if k = MAX_ITERATIONS
              then [session_status (session_id (session opts)) Errored
                      (session_title (session opts)) (Some ''Error: Max iterations reached'')]
              else [])
       \<and> length (requests (runClaude env opts)) = k"
proof -
  from initialise_footprint [OF assms(1)] have s0:
    "filter is_terminal (events s0) = []" "requests s0 = []" "rc_session ctx = session opts"
    by simp_all
  from loop_to_final [OF assms(2,3,4,6), of 0 s0] assms(5) obtain s' where
    l: "agent_loop env ctx 0 s0 = (None, k, s')"
    and f: "filter is_terminal (events s') =
           filter is_terminal (events s0)
             @ [stream_message (session_id (rc_session ctx))
                  (Msg_result False k final_text (session_id (rc_session ctx))),
                session_status (session_id (rc_session ctx)) Completed
                  (session_title (rc_session ctx)) None]"
           "length (requests s') = length (requests s0) + (k - 0)"
    by auto
  have "runClaude env opts =
          (if k \<ge> MAX_ITERATIONS
           then report_error (session opts) (JsError ''Error'' ''Max iterations reached'') s'
           else s')"
    using assms(1) l by (simp add: runClaude_def after_loop_def)
  with f s0 assms(6) show ?thesis
    by (simp add: report_error_def onEvent_def is_terminal_def)
qed


subsection \<open>The scenarios, evaluated\<close>

lemma demo_history_built:
  "buildHistory (demo_env\<lparr> chat_create := f, aborted_from := a \<rparr>) demo_session ''list the files''
     = Inr demo_history"
  by (simp add: buildHistory_def demo_env_def demo_session_def or_else_def load_history_def
      stored_log_def Let_def trim_def demo_history_def)

lemma demo_executor_built:
  "new_ToolExecutor ''/home/user/project'' ''/home/user/project'' (Some demo_settings)
     = rc_executor demo_ctx"
  by (simp add: new_ToolExecutor_def demo_settings_def demo_ctx_def truthy_def resolve_def
      normalizeString_def norm_step_def Let_def)

lemma demo_client_built:
  "runner_client (Some demo_settings) = Inr (rc_client demo_ctx)"
  by (simp add: runner_client_def demo_settings_def demo_ctx_def truthy_def or_else_def
      ensure_v1_def endsWith_def strip_trailing_slash_def)

lemma demo_initialise:
  "initialise (demo_env\<lparr> chat_create := f, aborted_from := a \<rparr>) demo_opts initial_state
     = (Inr demo_ctx,
        initial_state\<lparr> messages := demo_history, events := [demo_init_event],
                        session_updates := [''s1''] \<rparr>)"
proof -
  have 1: "loadApiSettings (demo_env\<lparr> chat_create := f, aborted_from := a \<rparr>) = Some demo_settings"
    and 2: "process_cwd (demo_env\<lparr> chat_create := f, aborted_from := a \<rparr>) = ''/home/user/project''"
    by (simp_all add: demo_env_def)
  have 3: "session demo_opts = demo_session" "prompt demo_opts = ''list the files''"
    "has_onSessionUpdate demo_opts"
    by (simp_all add: demo_opts_def)
  have 4: "or_else (session_cwd demo_session) ''/home/user/project'' = ''/home/user/project''"
    "session_id demo_session = ''s1''"
    by (simp_all add: demo_session_def or_else_def)
  have 5: "map fn_name TOOLS = [''Bash'', ''Read'', ''Write'', ''Edit'', ''Glob'', ''Grep'',
       ''WebSearch'', ''ExtractPageContent'', ''Memory'']"
    by (simp add: TOOLS_def ALL_TOOL_DEFINITIONS_def)
  have 6: "or_else (model demo_settings) [] = ''qwen''"
    by (simp add: demo_settings_def or_else_def)
  have 7: "demo_ctx = \<lparr> rc_client = rc_client demo_ctx, rc_settings = demo_settings,
       rc_executor = rc_executor demo_ctx, rc_session = demo_session \<rparr>"
    by (simp add: demo_ctx_def)
  show ?thesis
    unfolding initialise_def 1 2 3 4 option.case demo_client_built sum.case Let_def
      demo_history_built demo_executor_built 5 6
    by (simp add: 3 4 7 [symmetric] sendMessage_def onEvent_def initial_state_def
        demo_init_event_def)
qed

lemma assembled_tool_chunks:
  "aborted_from env = None \<Longrightarrow>
     assembled env ctx tool_chunks s =
       \<lparr> assistantMessage = [],
         toolCalls = [Some \<lparr> tc_id = ''c1'', tc_name = ''Bash'', tc_arguments = ''{}'' \<rparr>],
         contentStarted = False \<rparr>"
  by (simp add: assembled_def tool_chunks_def read_aborted_def on_chunk_def on_text_def
      truthy_def apply_fragment_def slot_def set_slot_def fresh_vars_def or_else_def
      delta_name_def delta_arguments_def)

lemma assembled_text_chunks:
  "aborted_from env = None \<Longrightarrow>
     assembled env ctx text_chunks s =
       \<lparr> assistantMessage = ''Hello'', toolCalls = [], contentStarted = True \<rparr>"
  by (simp add: assembled_def text_chunks_def read_aborted_def on_chunk_def on_text_def
      truthy_def fresh_vars_def or_else_def Let_def)

lemma assembled_bad_chunks:
  "aborted_from env = None \<Longrightarrow>
     toolCalls (assembled env ctx bad_chunks s) =
       [Some \<lparr> tc_id = ''c1'', tc_name = ''Read'', tc_arguments = ''{\"pa'' \<rparr>,
        Some \<lparr> tc_id = ''c2'', tc_name = ''Bash'', tc_arguments = ''{}'' \<rparr>]"
  by (simp add: assembled_def bad_chunks_def read_aborted_def on_chunk_def on_text_def
      truthy_def apply_fragment_def slot_def set_slot_def fresh_vars_def or_else_def
      delta_name_def delta_arguments_def)

lemma demo_parse_values:
  "demo_parse ''{}'' = Inr (JObj [])"
  "demo_parse ''{\"pa'' = Inl (JsError ''SyntaxError'' ''Unterminated string in JSON at position 4'')"
  by (simp_all add: demo_parse_def)

lemma usable_bash_call:
  "JSON_parse env = demo_parse \<Longrightarrow>
     usable_call env (Some \<lparr> tc_id = ''c1'', tc_name = ''Bash'', tc_arguments = ''{}'' \<rparr>)"
  by (simp add: usable_call_def arguments_or_default_def demo_parse_values)

lemma show_nat_1000: "show_nat 1000 = ''1000''"
  by code_simp

subsection \<open>Malformed argument strings\<close>

text \<open>
  C3, as the code has it. The string handed to \<^verbatim>\<open>JSON.parse\<close> for a call is
  \<^verbatim>\<open>toolCall.function.arguments || '{}'\<close> (lines 390 and 421): the argument string of the
  call, or \<^verbatim>\<open>{}\<close> when that string is empty. Wherever the loop stands, if the run is not
  aborted, the cap is not yet reached, and the next response of the model, its stream
  ending without a failure, carries a call for which \<^verbatim>\<open>JSON.parse\<close> throws \<open>e\<close> on that
  string (every call before it in the response being present and parsing), then \<open>e\<close>
  leaves the iteration while the tool-use events are being emitted: the request has been
  sent, no tool is executed for that response, no \<^verbatim>\<open>result\<close> and no status event is
  emitted by the loop, the loop is left with \<open>e\<close>, and the \<^verbatim>\<open>catch\<close> around it adds one
  event, a \<^verbatim>\<open>session.status\<close> with status \<^verbatim>\<open>error\<close> that carries \<open>e\<close> as a string;
  no further request is sent.
\<close>

theorem malformed_arguments_end_the_run:
  assumes "aborted_from env = None"
    and "n < MAX_ITERATIONS"
    and "malformed_turn env ctx (Suc n) e"
  shows "\<exists>s'. agent_loop env ctx n s = (Some e, Suc n, s')
           \<and> tool_runs s' = tool_runs s
           \<and> requests s' = requests s @ [request_for ctx (messages s)]
           \<and> filter is_terminal (events s') = filter is_terminal (events s)
           \<and> after_loop (rc_session ctx) (agent_loop env ctx n s) =
               s'\<lparr> events := events s' @
                    [session_status (session_id (rc_session ctx)) Errored
                       (session_title (rc_session ctx)) (Some (String_of e))] \<rparr>"
proof -
  define s1 where "s1 = s\<lparr> polls := Suc (polls s) \<rparr>"
  from iteration_malformed_turn [OF assms(1,3), of s1] obtain s' where
    it: "iteration env ctx (Suc n) s1 = (Throw e, s')"
    and f: "filter is_terminal (events s') = filter is_terminal (events s1)"
           "requests s' = requests s1 @ [request_for ctx (messages s1)]"
           "tool_runs s' = tool_runs s1"
    by blast
  have l: "agent_loop env ctx n s = (Some e, Suc n, s')"
    using assms(1,2) it
    by (subst agent_loop.simps) (simp add: read_aborted_def s1_def [symmetric])
  with f show ?thesis
    by (simp add: s1_def after_loop_def report_error_def onEvent_def)
qed

lemma bad_arguments_env_eq:
  "bad_arguments_env =
     demo_env\<lparr> chat_create :=
                 (\<lambda>client n req. if n = 1 then (bad_chunks, None) else (text_chunks, None)),
               aborted_from := None \<rparr>"
  by (simp add: bad_arguments_env_def demo_env_def)

lemma bad_arguments_env_turn:
  "malformed_turn bad_arguments_env demo_ctx (Suc 0)
     (JsError ''SyntaxError'' ''Unterminated string in JSON at position 4'')"
proof -
  have a: "aborted_from bad_arguments_env = None"
    and p: "JSON_parse bad_arguments_env = demo_parse"
    by (simp_all add: bad_arguments_env_def demo_env_def)
  have c: "chat_create bad_arguments_env cl (Suc 0) req = (bad_chunks, None)" for cl req
    by (simp add: bad_arguments_env_def)
  have "\<exists>pre tc post.
          [Some \<lparr> tc_id = ''c1'', tc_name = ''Read'', tc_arguments = ''{\"pa'' \<rparr>,
           Some \<lparr> tc_id = ''c2'', tc_name = ''Bash'', tc_arguments = ''{}'' \<rparr>]
            = pre @ Some tc # post
          \<and> list_all (parsable_call bad_arguments_env) pre
          \<and> JSON_parse bad_arguments_env (arguments_or_default tc) =
              Inl (JsError ''SyntaxError'' ''Unterminated string in JSON at position 4'')"
    by (rule exI [of _ "[]"],
        rule exI [of _ "\<lparr> tc_id = ''c1'', tc_name = ''Read'', tc_arguments = ''{\"pa'' \<rparr>"],
        rule exI [of _ "[Some \<lparr> tc_id = ''c2'', tc_name = ''Bash'', tc_arguments = ''{}'' \<rparr>]"])
       (simp add: p arguments_or_default_def demo_parse_values)
  then show ?thesis
    unfolding malformed_turn_def c
    by (simp add: assembled_bad_chunks [OF a])
qed

theorem malformed_arguments_end_the_run_witness:
  "aborted_from bad_arguments_env = None
   \<and> (0::nat) < MAX_ITERATIONS
   \<and> fst (agent_loop bad_arguments_env demo_ctx 0 initial_state) =
       Some (JsError ''SyntaxError'' ''Unterminated string in JSON at position 4'')
   \<and> tool_runs (snd (snd (agent_loop bad_arguments_env demo_ctx 0 initial_state))) = 0
   \<and> length (requests (snd (snd (agent_loop bad_arguments_env demo_ctx 0 initial_state)))) = 1
   \<and> filter is_terminal
       (events (after_loop (rc_session demo_ctx)
          (agent_loop bad_arguments_env demo_ctx 0 initial_state))) =
       [session_status ''s1'' Errored ''demo''
          (Some ''SyntaxError: Unterminated string in JSON at position 4'')]"
proof -
  have a: "aborted_from bad_arguments_env = None"
    by (simp add: bad_arguments_env_def demo_env_def)
  have n: "(0::nat) < MAX_ITERATIONS"
    by (simp add: MAX_ITERATIONS_def)
  from malformed_arguments_end_the_run [OF a n bad_arguments_env_turn, of initial_state]
  obtain s' where
    "agent_loop bad_arguments_env demo_ctx 0 initial_state =
       (Some (JsError ''SyntaxError'' ''Unterminated string in JSON at position 4''), Suc 0, s')"
    "tool_runs s' = tool_runs initial_state"
    "requests s' = requests initial_state @ [request_for demo_ctx (messages initial_state)]"
    "filter is_terminal (events s') = filter is_terminal (events initial_state)"
    "after_loop (rc_session demo_ctx) (agent_loop bad_arguments_env demo_ctx 0 initial_state) =
       s'\<lparr> events := events s' @
            [session_status (session_id (rc_session demo_ctx)) Errored
               (session_title (rc_session demo_ctx))
               (Some (String_of (JsError ''SyntaxError''
                  ''Unterminated string in JSON at position 4'')))] \<rparr>"
    by blast
  with a n show ?thesis
    by (simp add: initial_state_def demo_ctx_def demo_session_def is_terminal_def)
qed

text \<open>
  The claim as the specification states it fails: here the first of two calls has a
  malformed argument string and the second is well formed. The run sends one request,
  executes neither call, emits no tool result and ends with the error status.
\<close>

theorem malformed_arguments_counterexample:
  "events (runClaude bad_arguments_env demo_opts) =
     [demo_init_event,
      session_status ''s1'' Errored ''demo''
        (Some ''SyntaxError: Unterminated string in JSON at position 4'')]
   \<and> tool_runs (runClaude bad_arguments_env demo_opts) = 0
   \<and> length (requests (runClaude bad_arguments_env demo_opts)) = 1"
proof -
  have i: "initialise bad_arguments_env demo_opts initial_state
     = (Inr demo_ctx,
        initial_state\<lparr> messages := demo_history, events := [demo_init_event],
                        session_updates := [''s1''] \<rparr>)"
    unfolding bad_arguments_env_eq by (rule demo_initialise)
  have env: "aborted_from bad_arguments_env = None"
    "chat_create bad_arguments_env cl (Suc 0) req = (bad_chunks, None)"
    "JSON_parse bad_arguments_env = demo_parse"
    "sessionStore bad_arguments_env \<noteq> None" for cl req
    by (simp_all add: bad_arguments_env_def demo_env_def)
  have ctx: "rc_session demo_ctx = demo_session" "session demo_opts = demo_session"
    "session_id demo_session = ''s1''" "session_title demo_session = ''demo''"
    by (simp_all add: demo_ctx_def demo_opts_def demo_session_def)
  show ?thesis
    unfolding runClaude_def i
    by (simp add: agent_loop.simps [of _ _ 0] env ctx read_aborted_def initial_state_def
        iteration_def Let_def bad_chunks_def on_chunk_def on_text_def truthy_def or_else_def
        fresh_vars_def apply_fragment_def slot_def set_slot_def delta_name_def
        delta_arguments_def with_tools_def trim_def arguments_or_default_def
        demo_parse_values after_loop_def report_error_def onEvent_def MAX_ITERATIONS_def)
qed

text \<open>
  An empty argument string is not malformed for the runner: \<^verbatim>\<open>{}\<close> is parsed in its
  place, the tool is executed and the loop goes on, while the message kept for the model
  still carries the empty string.
\<close>

lemma empty_arguments_usable:
  "tc_arguments tc = [] \<Longrightarrow> JSON_parse env ''{}'' = Inr (JObj kvs) \<Longrightarrow> usable_call env (Some tc)"
  by (simp add: usable_call_def arguments_or_default_def)

lemma empty_arguments_env_eq:
  "empty_arguments_env =
     demo_env\<lparr> chat_create :=
                 (\<lambda>client n req. if n = 1 then (no_arguments_chunks, None) else (text_chunks, None)),
               aborted_from := None \<rparr>"
  by (simp add: empty_arguments_env_def demo_env_def)

lemma empty_arguments_run:
  "filter is_terminal (events (runClaude empty_arguments_env demo_opts)) =
     [stream_message ''s1'' (Msg_result False 2 ''Hello'' ''s1''),
      session_status ''s1'' Completed ''demo'' None]
   \<and> tool_runs (runClaude empty_arguments_env demo_opts) = 1
   \<and> map tool_calls (messages (runClaude empty_arguments_env demo_opts)) =
       [None, None, None,
        Some [Some \<lparr> tc_id = ''c1'', tc_name = ''Bash'', tc_arguments = [] \<rparr>], None]"
proof -
  have i: "initialise empty_arguments_env demo_opts initial_state
     = (Inr demo_ctx,
        initial_state\<lparr> messages := demo_history, events := [demo_init_event],
                        session_updates := [''s1''] \<rparr>)"
    unfolding empty_arguments_env_eq by (rule demo_initialise)
  have env: "aborted_from empty_arguments_env = None"
    "chat_create empty_arguments_env cl (Suc 0) req = (no_arguments_chunks, None)"
    "chat_create empty_arguments_env cl (Suc (Suc 0)) req = (text_chunks, None)"
    "JSON_parse empty_arguments_env = demo_parse"
    "Date_now empty_arguments_env k = 1000 + k"
    "process_cwd empty_arguments_env = ''/home/user/project''"
    "tool_bodies empty_arguments_env j = demo_impls"
    "sessionStore empty_arguments_env \<noteq> None" for cl req k j
    by (simp_all add: empty_arguments_env_def demo_env_def)
  have ctx: "rc_session demo_ctx = demo_session" "session demo_opts = demo_session"
    "session_id demo_session = ''s1''" "session_title demo_session = ''demo''"
    by (simp_all add: demo_ctx_def demo_opts_def demo_session_def)
  have ex: "executeTool p demo_impls ex ''Bash'' a = Inr demo_result" for p ex a
    by (simp add: executeTool_def dispatch_def demo_impls_def)
  show ?thesis
    unfolding runClaude_def i
    by (simp add: agent_loop.simps [of _ _ 0] agent_loop.simps [of _ _ "Suc 0"]
        env ctx ex read_aborted_def initial_state_def
        iteration_def Let_def no_arguments_chunks_def text_chunks_def on_chunk_def on_text_def
        truthy_def or_else_def fresh_vars_def apply_fragment_def slot_def set_slot_def
        delta_name_def delta_arguments_def with_tools_def trim_def arguments_or_default_def
        demo_parse_values after_tool_def tool_message_def demo_result_def
        sendMessage_def onEvent_def finish_without_tools_def now_def
        saveToDb_def after_loop_def MAX_ITERATIONS_def is_terminal_def demo_history_def chat_def
        demo_init_event_def)
qed

subsection \<open>A final answer on the last iteration\<close>

lemma late_answer_env_eq:
  "late_answer_env =
     demo_env\<lparr> chat_create :=
                 (\<lambda>client n req. if n < 50 then (tool_chunks, None) else (text_chunks, None)),
               aborted_from := None \<rparr>"
  by (simp add: late_answer_env_def demo_env_def)

lemma late_answer_env_turns:
  "m < 50 \<Longrightarrow> tool_turn late_answer_env demo_ctx m"
  "final_turn late_answer_env demo_ctx 50 ''Hello''"
proof -
  have a: "aborted_from late_answer_env = None" and p: "JSON_parse late_answer_env = demo_parse"
    by (simp_all add: late_answer_env_def demo_env_def)
  show "tool_turn late_answer_env demo_ctx m" if "m < 50"
  proof -
    have c: "chat_create late_answer_env cl m req = (tool_chunks, None)" for cl req
      using that by (simp add: late_answer_env_def)
    show ?thesis
      unfolding tool_turn_def c
      by (simp add: assembled_tool_chunks [OF a] usable_bash_call [OF p])
  qed
  have c: "chat_create late_answer_env cl 50 req = (text_chunks, None)" for cl req
    by (simp add: late_answer_env_def)
  show "final_turn late_answer_env demo_ctx 50 ''Hello''"
    unfolding final_turn_def c
    by (simp add: assembled_text_chunks [OF a])
qed

text \<open>
  C6. The check after the loop (line 467) does not ask how the loop was left. When the
  model calls a tool on its first 49 turns and gives its final answer on the 50th, the
  run emits the \<^verbatim>\<open>result\<close> event and the \<^verbatim>\<open>completed\<close> status, and then an
  \<^verbatim>\<open>error\<close> status saying that the iteration limit was reached.
\<close>

theorem final_answer_on_last_iteration_reports_error:
  "filter is_terminal (events (runClaude late_answer_env demo_opts)) =
     [stream_message ''s1'' (Msg_result False 50 ''Hello'' ''s1''),
      session_status ''s1'' Completed ''demo'' None,
      session_status ''s1'' Errored ''demo'' (Some ''Error: Max iterations reached'')]"
proof -
  have a: "aborted_from late_answer_env = None"
    by (simp add: late_answer_env_def demo_env_def)
  have i: "initialise late_answer_env demo_opts initial_state
     = (Inr demo_ctx,
        initial_state\<lparr> messages := demo_history, events := [demo_init_event],
                        session_updates := [''s1''] \<rparr>)"
    unfolding late_answer_env_eq by (rule demo_initialise)
  have t: "\<forall>m. m < 50 \<longrightarrow> tool_turn late_answer_env demo_ctx m"
    using late_answer_env_turns(1) by simp
  from run_with_final_turn [OF i a t late_answer_env_turns(2)] show ?thesis
    by (simp add: demo_opts_def demo_session_def MAX_ITERATIONS_def)
qed

subsection \<open>The iteration cap\<close>






subsection \<open>Abort\<close>

lemma aborted_env_eq:
  "aborted_env = demo_env\<lparr> chat_create := (\<lambda>client n req. (text_chunks, None)),
                           aborted_from := Some 2 \<rparr>"
  by (simp add: aborted_env_def)

text \<open>
  C8. The flag is read before each chunk, and the stream loop is left when it is set; but
  the code after the loop does not read it again. When the abort arrives while a text
  answer is streaming and no call has been assembled, the run goes on to emit the
  assistant message, a \<^verbatim>\<open>result\<close> event with \<^verbatim>\<open>is_error: false\<close> carrying the text
  received so far, and the \<^verbatim>\<open>completed\<close> status.
\<close>

theorem abort_during_text_stream_emits_result:
  "events (runClaude aborted_env demo_opts) =
     [demo_init_event,
      stream_message ''s1'' (Msg_stream_event content_block_start),
      stream_message ''s1'' (Msg_stream_event (content_block_delta ''Hel'')),
      stream_message ''s1'' (Msg_stream_event content_block_stop),
      stream_message ''s1'' (Msg_assistant_text ''msg_1000'' ''Hel''),
      stream_message ''s1'' (Msg_result False 1 ''Hel'' ''s1''),
      session_status ''s1'' Completed ''demo'' None]
   \<and> polls (runClaude aborted_env demo_opts) = 3
   \<and> aborted_from aborted_env = Some 2"
proof -
  have i: "initialise aborted_env demo_opts initial_state
     = (Inr demo_ctx,
        initial_state\<lparr> messages := demo_history, events := [demo_init_event],
                        session_updates := [''s1''] \<rparr>)"
    unfolding aborted_env_eq by (rule demo_initialise)
  have env: "aborted_from aborted_env = Some 2"
    "chat_create aborted_env cl n req = (text_chunks, None)"
    "Date_now aborted_env k = 1000 + k"
    "sessionStore aborted_env \<noteq> None" for cl n req k
    by (simp_all add: aborted_env_def demo_env_def)
  have ctx: "rc_session demo_ctx = demo_session" "session demo_opts = demo_session"
    "session_id demo_session = ''s1''" "session_title demo_session = ''demo''"
    by (simp_all add: demo_ctx_def demo_opts_def demo_session_def)
  show ?thesis
    unfolding runClaude_def i
    by (simp add: agent_loop.simps [of _ _ 0] env ctx read_aborted_def initial_state_def
        iteration_def Let_def text_chunks_def on_chunk_def on_text_def truthy_def or_else_def
        fresh_vars_def sendMessage_def onEvent_def finish_without_tools_def now_def
        saveToDb_def after_loop_def MAX_ITERATIONS_def show_nat_1000)
qed

subsection \<open>The tool schema of a request\<close>

lemma demo_env_eq:
  "demo_env = demo_env\<lparr> chat_create := (\<lambda>client n req. ([], None)), aborted_from := None \<rparr>"
  by (simp add: demo_env_def)

lemma demo_env_requests:
  "requests (runClaude demo_env demo_opts) = [request_for demo_ctx demo_history]"
proof -
  have i: "initialise demo_env demo_opts initial_state
     = (Inr demo_ctx,
        initial_state\<lparr> messages := demo_history, events := [demo_init_event],
                        session_updates := [''s1''] \<rparr>)"
    by (subst demo_env_eq) (rule demo_initialise)
  have env: "aborted_from demo_env = None" "chat_create demo_env cl n req = ([], None)" for cl n req
    by (simp_all add: demo_env_def)
  show ?thesis
    unfolding runClaude_def i
    by (simp add: agent_loop.simps [of _ _ 0] env read_aborted_def initial_state_def
        iteration_def Let_def fresh_vars_def finish_without_tools_def now_def saveToDb_def
        sendMessage_def onEvent_def after_loop_def MAX_ITERATIONS_def)
qed

text \<open>
  C9. Every request of every run is built with \<^verbatim>\<open>TOOLS\<close>, the whole table, and the
  settings have no part in it: the Memory tool is submitted also when \<^verbatim>\<open>enableMemory\<close>
  is off or missing. \<^verbatim>\<open>getTools\<close>, which leaves it out then, is not what the runner calls. In the
  run shown, the settings have \<^verbatim>\<open>enableMemory: false\<close> and the one request sent lists
  Memory among its tools.
\<close>

theorem memory_tool_submitted_when_disabled:
  "list_all (\<lambda>r. req_tools r = ALL_TOOL_DEFINITIONS) (requests (runClaude env opts))
   \<and> req_tools (request_for (ctx\<lparr> rc_settings := gs \<rparr>) msgs) =
       req_tools (request_for (ctx\<lparr> rc_settings := gs' \<rparr>) msgs)
   \<and> \<lparr> fn_name = ''Memory'' \<rparr> \<in> set ALL_TOOL_DEFINITIONS
   \<and> \<lparr> fn_name = ''Memory'' \<rparr> \<notin> set (getTools None)
   \<and> \<lparr> fn_name = ''Memory'' \<rparr> \<notin> set (getTools (Some (gs\<lparr> enableMemory := Some False \<rparr>)))
   \<and> \<lparr> fn_name = ''Memory'' \<rparr> \<notin> set (getTools (Some (gs\<lparr> enableMemory := None \<rparr>)))
   \<and> loadApiSettings demo_env = Some demo_settings
   \<and> enableMemory demo_settings = Some False
   \<and> map (\<lambda>r. map fn_name (req_tools r)) (requests (runClaude demo_env demo_opts)) =
       [[''Bash'', ''Read'', ''Write'', ''Edit'', ''Glob'', ''Grep'', ''WebSearch'',
         ''ExtractPageContent'', ''Memory'']]"
proof -
  have "\<lparr> fn_name = ''Memory'' \<rparr> \<in> set ALL_TOOL_DEFINITIONS"
    by (simp add: ALL_TOOL_DEFINITIONS_def)
  moreover have "\<lparr> fn_name = ''Memory'' \<rparr> \<notin> set (getTools None)"
    "\<lparr> fn_name = ''Memory'' \<rparr> \<notin> set (getTools (Some (gs\<lparr> enableMemory := Some False \<rparr>)))"
    "\<lparr> fn_name = ''Memory'' \<rparr> \<notin> set (getTools (Some (gs\<lparr> enableMemory := None \<rparr>)))"
    by (simp_all add: getTools_def)
  moreover have "loadApiSettings demo_env = Some demo_settings"
    "enableMemory demo_settings = Some False"
    by (simp_all add: demo_env_def demo_settings_def)
  moreover have "map (\<lambda>r. map fn_name (req_tools r)) (requests (runClaude demo_env demo_opts)) =
       [[''Bash'', ''Read'', ''Write'', ''Edit'', ''Glob'', ''Grep'', ''WebSearch'',
         ''ExtractPageContent'', ''Memory'']]"
    by (simp add: demo_env_requests request_for_def TOOLS_def ALL_TOOL_DEFINITIONS_def)
  ultimately show ?thesis
    using runClaude_requests [of env opts] by (simp add: request_for_def)
qed

end
